theory Spec2Isabelle
  imports Complex_Main "HOL-Library.AList"
begin

section \<open>Field normalizer\<close>

text \<open>
  A string is a list of 8-bit characters, read as the code points U+0000 to U+00FF; the
  character tests are Python's on this range. On it \<open>str.isdigit\<close> holds of the ten
  decimal digits and of the superscripts U+00B2, U+00B3 and U+00B9.
\<close>

definition is_decimal :: "char \<Rightarrow> bool" where
  "is_decimal c = (c \<in> set ''0123456789'')"

definition isdigit :: "char \<Rightarrow> bool" where
  "isdigit c = (is_decimal c \<or> c \<in> set [CHR 0xB2, CHR 0xB3, CHR 0xB9])"

text \<open>\<open>s.isdigit()\<close>: false on the empty string.\<close>

definition str_isdigit :: "string \<Rightarrow> bool" where
  "str_isdigit s = (s \<noteq> [] \<and> list_all isdigit s)"

text \<open>
  \<open>int(s)\<close>, as the code calls it on a string that has passed \<open>isdigit\<close>: the decimal
  value, and \<open>None\<close> where \<open>int\<close> raises ValueError. It raises on a superscript digit
  and on a string of more digits than the interpreter's limit on the conversion allows,
  4300 by default. Python integers are unbounded.
\<close>

definition int_max_str_digits :: nat where
  "int_max_str_digits = 4300"

definition digit_val :: "char \<Rightarrow> int" where
  "digit_val c = int (of_char c) - 48"

definition py_int :: "string \<Rightarrow> int option" where
  "py_int s =
     (if s \<noteq> [] \<and> list_all is_decimal s \<and> length s \<le> int_max_str_digits
      then Some (fold (\<lambda>c n. 10 * n + digit_val c) s 0)
      else None)"

text \<open>
  \<open>validate_phone_number\<close>: the callers pass the result of \<open>safe_get_column\<close>, which is
  never NaN, so the argument is a string. \<open>digits_only[-10:]\<close> keeps the last ten
  characters. The data-quality log the method appends to is write-only and is not modelled.
\<close>

definition validate_phone_number :: "string \<Rightarrow> string option" where
  "validate_phone_number phone_str =
     (if phone_str = [] then None
      else let digits_only = filter isdigit phone_str in
        if length digits_only < 10 then None
        else if length digits_only > 15 then None
        else Some (drop (length digits_only - 10) digits_only))"

text \<open>
  A parsed time is a moment, counted in seconds from the epoch, or pandas' \<open>NaT\<close>. Every
  ordering comparison with \<open>NaT\<close> is false, and \<open>NaT\<close> is truthy like any moment.
\<close>

datatype stamp = NaT | At int

fun stamp_less :: "stamp \<Rightarrow> stamp \<Rightarrow> bool" where
  "stamp_less (At a) (At b) = (a < b)"
| "stamp_less _ _ = False"

text \<open>
  The two calls of \<open>pd.to_datetime\<close> are library code: they are parameters of the model,
  returning \<open>None\<close> where the library raises, or yields a time with a zone, which the
  comparison with the clock refuses. \<open>datetime.now()\<close> is read as one value \<open>now\<close>.
\<close>

record env =
  now :: int
  parse_ampm :: "string \<Rightarrow> stamp option"
  parse_any :: "string \<Rightarrow> stamp option"

fun is_prefix :: "string \<Rightarrow> string \<Rightarrow> bool" where
  "is_prefix [] s = True"
| "is_prefix (p # ps) [] = False"
| "is_prefix (p # ps) (c # cs) = (p = c \<and> is_prefix ps cs)"

text \<open>\<open>sub in s\<close> on strings.\<close>

fun str_contains :: "string \<Rightarrow> string \<Rightarrow> bool" where
  "str_contains sub [] = (sub = [])"
| "str_contains sub (c # cs) = (is_prefix sub (c # cs) \<or> str_contains sub cs)"

definition day :: int where
  "day = 86400"

text \<open>The parse: the 12-hour format where the string holds \<open>AM\<close> or \<open>PM\<close>.\<close>

definition parse_timestamp :: "env \<Rightarrow> string \<Rightarrow> stamp option" where
  "parse_timestamp e datetime_str =
     (if str_contains ''AM'' datetime_str \<or> str_contains ''PM'' datetime_str
      then parse_ampm e datetime_str
      else parse_any e datetime_str)"

text \<open>
  \<open>validate_timestamp\<close>: the window test is made of two comparisons, so a parsed \<open>NaT\<close>
  passes it and is returned.
\<close>

definition validate_timestamp :: "env \<Rightarrow> string \<Rightarrow> stamp option" where
  "validate_timestamp e datetime_str =
     (if datetime_str = [] then None
      else case parse_timestamp e datetime_str of
          None \<Rightarrow> None
        | Some parsed_date \<Rightarrow>
            (let min_date = At (now e - 730 * day);
                 max_date = At (now e + 365 * day)
             in if stamp_less parsed_date min_date \<or> stamp_less max_date parsed_date then None
                else Some parsed_date))"

text \<open>
  Business dates are day numbers; the business day runs from 6AM to 6AM. For \<open>NaT\<close> the
  method returns \<open>None\<close>.
\<close>

definition hour :: "int \<Rightarrow> int" where
  "hour t = (t mod day) div 3600"

definition date :: "int \<Rightarrow> int" where
  "date t = t div day"

definition convert_to_business_date :: "stamp \<Rightarrow> int option" where
  "convert_to_business_date datetime_obj =
     (case datetime_obj of
        NaT \<Rightarrow> None
      | At t \<Rightarrow> Some (if hour t < 6 then date t - 1 else date t))"

text \<open>
  \<open>str.strip()\<close> removes the whitespace at both ends: the characters of which
  \<open>str.isspace\<close> holds, among them U+0085 and U+00A0. \<open>str.split(sep)\<close> cuts at every
  separator, so that it returns one field more than there are separators.
\<close>

definition isspace :: "char \<Rightarrow> bool" where
  "isspace c = (c \<in> set [CHR '' '', CHR 0x09, CHR 0x0A, CHR 0x0B, CHR 0x0C, CHR 0x0D,
                          CHR 0x1C, CHR 0x1D, CHR 0x1E, CHR 0x1F, CHR 0x85, CHR 0xA0])"

definition strip :: "string \<Rightarrow> string" where
  "strip s = rev (dropWhile isspace (rev (dropWhile isspace s)))"

fun split :: "char \<Rightarrow> string \<Rightarrow> string list" where
  "split sep [] = [[]]"
| "split sep (c # cs) =
     (if c = sep then [] # split sep cs
      else (c # hd (split sep cs)) # tl (split sep cs))"

text \<open>
  The value of one field of \<open>HH:MM:SS\<close>: \<open>int(p) if p.isdigit() else 0\<close>, and \<open>None\<close>
  where \<open>int\<close> raises.
\<close>

definition field_value :: "string \<Rightarrow> int option" where
  "field_value p = (if str_isdigit p then py_int p else Some 0)"

text \<open>
  \<open>time_to_seconds\<close>: an exception raised in the \<open>try\<close> block is caught, and the
  \<open>except\<close> branch returns 0.
\<close>

definition time_to_seconds :: "string \<Rightarrow> int" where
  "time_to_seconds time_str =
     (if time_str = ''00:00:00'' \<or> time_str = [] then 0
      else case split CHR '':'' (strip time_str) of
          [p0, p1, p2] \<Rightarrow>
            (case field_value p0 of
               None \<Rightarrow> 0
             | Some hours \<Rightarrow>
                (case field_value p1 of
                   None \<Rightarrow> 0
                 | Some minutes \<Rightarrow>
                    (case field_value p2 of
                       None \<Rightarrow> 0
                     | Some seconds \<Rightarrow>
                         if hours > 24 \<or> minutes > 59 \<or> seconds > 59 then 0
                         else hours * 3600 + minutes * 60 + seconds)))
        | _ \<Rightarrow> 0)"

section \<open>Records and column lookup\<close>

text \<open>
  A row of a DataFrame is the list of its column labels with their cells; a cell holds
  the text of its value, and is \<open>None\<close> where pandas holds NaN. A label may occur more
  than once.
\<close>

type_synonym cell = "string option"
type_synonym row = "(string \<times> cell) list"
type_synonym dataframe = "row list"

text \<open>
  \<open>str.lower()\<close>: the capital letters are A to Z and U+00C0 to U+00DE without the
  multiplication sign U+00D7; the small letter lies 32 code points higher.
\<close>

definition lower_char :: "char \<Rightarrow> char" where
  "lower_char c =
     (if c \<in> set ''ABCDEFGHIJKLMNOPQRSTUVWXYZ''
         \<or> (0xC0 \<le> (of_char c :: nat) \<and> (of_char c :: nat) \<le> 0xDE \<and> c \<noteq> CHR 0xD7)
      then char_of (of_char c + (32::nat)) else c)"

definition str_lower :: "string \<Rightarrow> string" where
  "str_lower s = map lower_char s"

text \<open>\<open>clean_dataframe_columns\<close> strips every column label.\<close>

definition clean_dataframe_columns :: "dataframe \<Rightarrow> dataframe" where
  "clean_dataframe_columns df = map (map (\<lambda>(col, v). (strip col, v))) df"

definition cell_or :: "cell \<Rightarrow> string \<Rightarrow> string" where
  "cell_or v dflt = (case v of None \<Rightarrow> dflt | Some s \<Rightarrow> s)"

text \<open>
  \<open>record[col]\<close> followed by \<open>value if not pd.isna(value) else default\<close>. Under a
  label that occurs more than once \<open>record[col]\<close> is a Series, the test on it raises, and
  the \<open>except\<close> branch of \<open>safe_get_column\<close> returns the default.
\<close>

definition get_cell :: "row \<Rightarrow> string \<Rightarrow> string \<Rightarrow> string" where
  "get_cell record col dflt =
     (case map_of record col of
        None \<Rightarrow> dflt
      | Some v \<Rightarrow>
          if length (filter (\<lambda>(c, v). c = col) record) > 1 then dflt else cell_or v dflt)"

text \<open>
  \<open>safe_get_column\<close>: the exact label first, then the first label that contains the
  wanted name, compared in lower case; the default for a missing column or a NaN cell.
\<close>

definition safe_get_column :: "row \<Rightarrow> string \<Rightarrow> string \<Rightarrow> string" where
  "safe_get_column record column_name dflt =
     (if column_name \<in> set (map fst record) then get_cell record column_name dflt
      else case find (\<lambda>(col, v). str_contains (str_lower column_name) (str_lower col)) record of
             Some (col, v) \<Rightarrow> get_cell record col dflt
           | None \<Rightarrow> dflt)"

section \<open>Abandon detector\<close>

record abandon_call =
  call_time :: stamp
  call_time_str :: string
  business_date :: "int option"
  wait_time_seconds :: int
  wait_time_str :: string
  queue_name :: string
  username :: string
  disposition :: string

datatype recovery_type = INBOUND | OUTBOUND

record recovery =
  rc_type :: recovery_type
  rc_time :: stamp
  rc_time_str :: string
  rc_business_date :: "int option"
  rc_disposition :: string
  rc_username :: string
  rc_talk_time :: string

datatype status = RECOVERED | ATTEMPTED | NEEDS_OUTBOUND

text \<open>
  The per-phone dictionary. The keys \<open>recovery_call\<close> and \<open>recovery_status\<close> are absent
  until the recovery search sets them: \<open>None\<close> is the absent key.
\<close>

record phone_data =
  phone :: string
  original_phone :: string
  first_abandon_time :: stamp
  first_abandon_time_str :: string
  first_abandon_business_date :: "int option"
  abandon_calls :: "abandon_call list"
  total_abandon_calls :: int
  recovery_call :: "recovery option"
  recovery_status :: "status option"

text \<open>
  \<open>abandon_phone_data\<close> is a dict in insertion order: an association list in which
  \<open>AList.update\<close> replaces the value of a present key in place and appends a new key.
\<close>

type_synonym phone_dict = "(string \<times> phone_data) list"

definition mk_abandon_call :: "row \<Rightarrow> stamp \<Rightarrow> abandon_call" where
  "mk_abandon_call record call_datetime =
     \<lparr> call_time = call_datetime,
       call_time_str = safe_get_column record ''Call Time'' [],
       business_date = convert_to_business_date call_datetime,
       wait_time_seconds = time_to_seconds (safe_get_column record ''Wait Time at ACD'' []),
       wait_time_str = safe_get_column record ''Wait Time at ACD'' [],
       queue_name = safe_get_column record ''Queue Name'' [],
       username = safe_get_column record ''Username'' [],
       disposition = safe_get_column record ''User Disposition Code'' [] \<rparr>"

text \<open>
  One iteration of the loop of \<open>extract_abandon_phone_numbers\<close>. A validated call time
  is truthy also where it is \<open>NaT\<close>, so such a record is not skipped.
\<close>

definition extract_step :: "env \<Rightarrow> row \<Rightarrow> phone_dict \<Rightarrow> phone_dict" where
  "extract_step e record abandon_phone_data =
     (let phone_raw = safe_get_column record ''Phone'' [];
          answered_hungup = safe_get_column record ''Answered/Hungup'' [];
          wait_time_str = safe_get_column record ''Wait Time at ACD'' [];
          call_time_raw = safe_get_column record ''Call Time'' []
      in case validate_phone_number phone_raw of
           None \<Rightarrow> abandon_phone_data
         | Some normalized_phone \<Rightarrow>
            (case validate_timestamp e call_time_raw of
               None \<Rightarrow> abandon_phone_data
             | Some call_datetime \<Rightarrow>
                 if answered_hungup = ''HUNGUP'' \<and> time_to_seconds wait_time_str > 27 then
                   (let d0 = (case map_of abandon_phone_data normalized_phone of
                                Some d \<Rightarrow> d
                              | None \<Rightarrow>
                                  \<lparr> phone = normalized_phone,
                                    original_phone = phone_raw,
                                    first_abandon_time = call_datetime,
                                    first_abandon_time_str = call_time_raw,
                                    first_abandon_business_date =
                                      convert_to_business_date call_datetime,
                                    abandon_calls = [],
                                    total_abandon_calls = 0,
                                    recovery_call = None,
                                    recovery_status = None \<rparr>);
                        d1 = d0 \<lparr> abandon_calls :=
                                    abandon_calls d0 @ [mk_abandon_call record call_datetime],
                                  total_abandon_calls := total_abandon_calls d0 + 1 \<rparr>;
                        d2 = (if stamp_less call_datetime (first_abandon_time d1)
                              then d1 \<lparr> first_abandon_time := call_datetime,
                                        first_abandon_time_str := call_time_raw,
                                        first_abandon_business_date :=
                                          convert_to_business_date call_datetime \<rparr>
                              else d1)
                    in AList.update normalized_phone d2 abandon_phone_data)
                 else abandon_phone_data))"

definition extract_abandon_phone_numbers :: "env \<Rightarrow> dataframe \<Rightarrow> phone_dict" where
  "extract_abandon_phone_numbers e acd_data =
     fold (extract_step e) (clean_dataframe_columns acd_data) []"

section \<open>Recovery matcher\<close>

definition successful_dispositions :: "string list" where
  "successful_dispositions =
     [''Others'', ''MI'', ''PQC'', ''AE'', ''AE MI'', ''AE PQC'', ''Non-case'', ''Test'',
      ''AE PQC MI'', ''PQC MI'', ''Inbound Follow-up'', ''Translation AE'']"

text \<open>
  The candidate test of the inbound loop: the \<open>recovery_data\<close> built from a record of the
  ACD log, or \<open>None\<close> where the record is passed over.
\<close>

definition inbound_candidate :: "env \<Rightarrow> string \<Rightarrow> stamp \<Rightarrow> row \<Rightarrow> recovery option" where
  "inbound_candidate e ph fat record =
     (let record_phone = validate_phone_number (safe_get_column record ''Phone'' []);
          answered_hungup = safe_get_column record ''Answered/Hungup'' []
      in if record_phone = Some ph \<and> answered_hungup = ''ANSWERED'' then
           (case validate_timestamp e (safe_get_column record ''Call Time'' []) of
              None \<Rightarrow> None
            | Some t \<Rightarrow>
                if stamp_less fat t then
                  Some \<lparr> rc_type = INBOUND,
                         rc_time = t,
                         rc_time_str = safe_get_column record ''Call Time'' [],
                         rc_business_date = convert_to_business_date t,
                         rc_disposition = safe_get_column record ''User Disposition Code'' [],
                         rc_username = safe_get_column record ''Username'' [],
                         rc_talk_time = safe_get_column record ''User Talk Time'' ''00:00:00'' \<rparr>
                else None)
         else None)"

text \<open>The candidate test of the outbound loop, on a record of the CALL log.\<close>

definition outbound_candidate :: "env \<Rightarrow> string \<Rightarrow> stamp \<Rightarrow> row \<Rightarrow> recovery option" where
  "outbound_candidate e ph fat record =
     (let record_phone = validate_phone_number (safe_get_column record ''Phone'' []);
          call_type = safe_get_column record ''Call Type'' [];
          system_disposition = safe_get_column record ''System Disposition'' []
      in if record_phone = Some ph \<and> call_type = ''outbound.manual.dial''
            \<and> system_disposition = ''CONNECTED'' then
           (case validate_timestamp e (safe_get_column record ''Call Time'' []) of
              None \<Rightarrow> None
            | Some t \<Rightarrow>
                if stamp_less fat t then
                  Some \<lparr> rc_type = OUTBOUND,
                         rc_time = t,
                         rc_time_str = safe_get_column record ''Call Time'' [],
                         rc_business_date = convert_to_business_date t,
                         rc_disposition = safe_get_column record ''Disposition Code'' [],
                         rc_username = safe_get_column record ''User Name'' [],
                         rc_talk_time = safe_get_column record ''User Talk Time'' ''00:00:00'' \<rparr>
                else None)
         else None)"

text \<open>
  The two scanning loops have the same body after the candidate test: a successful
  candidate is stored, the status set to RECOVERED and the loop left (\<open>break\<close>, the flag
  \<open>recovery_found_for_phone\<close> is the second component); a candidate that is not successful
  is stored with status ATTEMPTED only while the key \<open>recovery_call\<close> is absent.
\<close>

fun scan_log :: "(row \<Rightarrow> recovery option) \<Rightarrow> row list \<Rightarrow> phone_data \<Rightarrow> phone_data \<times> bool" where
  "scan_log cand [] d = (d, False)"
| "scan_log cand (record # rest) d =
     (case cand record of
        None \<Rightarrow> scan_log cand rest d
      | Some recovery_data \<Rightarrow>
          if rc_disposition recovery_data \<in> set successful_dispositions
          then (d \<lparr> recovery_call := Some recovery_data,
                    recovery_status := Some RECOVERED \<rparr>, True)
          else if recovery_call d = None
          then scan_log cand rest (d \<lparr> recovery_call := Some recovery_data,
                                        recovery_status := Some ATTEMPTED \<rparr>)
          else scan_log cand rest d)"

text \<open>
  The body of the loop over the phones. Timestamps are always truthy, so the guard
  \<open>if not first_abandon_time\<close> never skips a phone.
\<close>

definition recover_phone :: "env \<Rightarrow> dataframe \<Rightarrow> dataframe \<Rightarrow> string \<Rightarrow> phone_data \<Rightarrow> phone_data" where
  "recover_phone e acd_data call_data ph d =
     (let fat = first_abandon_time d;
          (d1, found1) = scan_log (inbound_candidate e ph fat) acd_data d;
          (d2, found2) = (if \<not> found1 \<and> call_data \<noteq> []
                          then scan_log (outbound_candidate e ph fat) call_data d1
                          else (d1, found1))
      in if \<not> found2 then d2 \<lparr> recovery_status := Some NEEDS_OUTBOUND \<rparr> else d2)"

definition find_recovery_calls :: "env \<Rightarrow> phone_dict \<Rightarrow> dataframe \<Rightarrow> dataframe \<Rightarrow> phone_dict" where
  "find_recovery_calls e abandon_phone_data acd_data call_data =
     (if abandon_phone_data = [] then abandon_phone_data
      else map (\<lambda>(ph, d). (ph, recover_phone e (clean_dataframe_columns acd_data)
                                      (clean_dataframe_columns call_data) ph d))
             abandon_phone_data)"

section \<open>Metrics aggregator\<close>

text \<open>
  The rate is computed in exact rational arithmetic; the rounding error of binary floating
  point is not modelled. \<open>round(x, 1)\<close> rounds a tie to the even neighbour.
\<close>

definition round_half_even :: "rat \<Rightarrow> int" where
  "round_half_even x =
     (let f = \<lfloor>x\<rfloor>; r = x - of_int f
      in if r < 1 / 2 then f else if r > 1 / 2 then f + 1
         else if even f then f else f + 1)"

definition py_round1 :: "rat \<Rightarrow> rat" where
  "py_round1 x = of_int (round_half_even (x * 10)) / 10"

definition rate_step :: "row \<Rightarrow> int \<times> int \<Rightarrow> int \<times> int" where
  "rate_step record = (\<lambda>(valid_calls, total_abandon).
     (case validate_phone_number (safe_get_column record ''Phone'' []) of
        None \<Rightarrow> (valid_calls, total_abandon)
      | Some normalized_phone \<Rightarrow>
          if safe_get_column record ''Answered/Hungup'' [] = ''HUNGUP''
             \<and> time_to_seconds (safe_get_column record ''Wait Time at ACD'' []) > 27
          then (valid_calls + 1, total_abandon + 1)
          else (valid_calls + 1, total_abandon)))"

definition recovered_abandon_calls :: "phone_dict \<Rightarrow> int" where
  "recovered_abandon_calls abandon_phone_data =
     fold (\<lambda>(ph, d) acc. if recovery_status d = Some RECOVERED
                          then acc + total_abandon_calls d else acc)
       abandon_phone_data 0"

definition calculate_corrected_abandonment_rate :: "dataframe \<Rightarrow> phone_dict \<Rightarrow> rat" where
  "calculate_corrected_abandonment_rate acd_data abandon_phone_data =
     (let (valid_calls, total_abandon) =
            fold rate_step (clean_dataframe_columns acd_data) (0, 0);
          recovered = recovered_abandon_calls abandon_phone_data
      in if valid_calls > 0
         then py_round1 (of_int (total_abandon - recovered) / of_int valid_calls * 100)
         else 0)"

record tally =
  t_valid_calls :: int
  t_valid_answered :: int
  t_valid_hungup :: int
  t_quick_drops :: int
  t_abandon_calls :: int

definition metrics_step :: "row \<Rightarrow> tally \<Rightarrow> tally" where
  "metrics_step record t =
     (case validate_phone_number (safe_get_column record ''Phone'' []) of
        None \<Rightarrow> t
      | Some normalized_phone \<Rightarrow>
          (let t1 = t \<lparr> t_valid_calls := t_valid_calls t + 1 \<rparr>;
               answered_hungup = safe_get_column record ''Answered/Hungup'' []
           in if answered_hungup = ''ANSWERED''
              then t1 \<lparr> t_valid_answered := t_valid_answered t1 + 1 \<rparr>
              else if answered_hungup = ''HUNGUP''
              then (let t2 = t1 \<lparr> t_valid_hungup := t_valid_hungup t1 + 1 \<rparr>
                    in if time_to_seconds (safe_get_column record ''Wait Time at ACD'' []) \<le> 27
                       then t2 \<lparr> t_quick_drops := t_quick_drops t2 + 1 \<rparr>
                       else t2 \<lparr> t_abandon_calls := t_abandon_calls t2 + 1 \<rparr>)
              else t1))"

record summary_metrics =
  total_valid_calls :: int
  total_answered_calls :: int
  total_hungup_calls :: int
  quick_drops :: int
  abandon_calls_over_27 :: int
  unique_abandon_phone_numbers :: int
  unique_phones_recovered :: int
  unique_phones_needing_outbound_calls :: int
  abandonment_rate :: rat

text \<open>
  \<open>generate_summary_metrics\<close> counts over the cleaned frame and hands the cleaned frame
  on to the rate computation.
\<close>

definition generate_summary_metrics :: "dataframe \<Rightarrow> phone_dict \<Rightarrow> summary_metrics" where
  "generate_summary_metrics acd_data abandon_phone_data =
     (let t = fold metrics_step (clean_dataframe_columns acd_data)
                \<lparr> t_valid_calls = 0, t_valid_answered = 0, t_valid_hungup = 0,
                  t_quick_drops = 0, t_abandon_calls = 0 \<rparr>;
          unique_abandon_phones = int (length abandon_phone_data);
          recovered_phones =
            int (length (filter (\<lambda>(ph, d). recovery_status d = Some RECOVERED)
                           abandon_phone_data))
      in \<lparr> total_valid_calls = t_valid_calls t,
           total_answered_calls = t_valid_answered t,
           total_hungup_calls = t_valid_hungup t,
           quick_drops = t_quick_drops t,
           abandon_calls_over_27 = t_abandon_calls t,
           unique_abandon_phone_numbers = unique_abandon_phones,
           unique_phones_recovered = recovered_phones,
           unique_phones_needing_outbound_calls = unique_abandon_phones - recovered_phones,
           abandonment_rate =
             calculate_corrected_abandonment_rate (clean_dataframe_columns acd_data)
               abandon_phone_data \<rparr>)"

text \<open>
  The whole analysis, as \<open>create_excel_reports\<close> runs it. The passes share one frame
  whose labels the first pass has cleaned in place; cleaning is idempotent, so each pass is
  given the frame as loaded.
\<close>

definition analysed_phones :: "env \<Rightarrow> dataframe \<Rightarrow> dataframe \<Rightarrow> phone_dict" where
  "analysed_phones e acd_data call_data =
     find_recovery_calls e (extract_abandon_phone_numbers e acd_data) acd_data call_data"

section \<open>Daily breakdown\<close>

text \<open>
  \<open>record.to_dict()\<close>: the labels in the order of their first occurrence, each with
  the cell of its last occurrence.
\<close>

definition to_dict :: "row \<Rightarrow> row" where
  "to_dict record = fold (\<lambda>(col, v). AList.update col v) record []"

text \<open>
  \<open>valid_data\<close>: the records with a valid phone and a valid timestamp, as dicts, each
  with its business date, which is \<open>None\<close> for the timestamp \<open>NaT\<close>. The two keys added
  to the dict do not change any column lookup the report makes.
\<close>

definition valid_data :: "env \<Rightarrow> dataframe \<Rightarrow> (row \<times> int option) list" where
  "valid_data e acd_data =
     concat (map (\<lambda>record.
       case validate_phone_number (safe_get_column record ''Phone'' []) of
         None \<Rightarrow> []
       | Some normalized_phone \<Rightarrow>
           (case validate_timestamp e (safe_get_column record ''Call Time'' []) of
              None \<Rightarrow> []
            | Some call_datetime \<Rightarrow>
                [(to_dict record, convert_to_business_date call_datetime)]))
       acd_data)"

text \<open>
  \<open>phones_by_date\<close>: business date to the pair of \<open>phones\<close> and \<open>recovered\<close>. The
  guard \<open>if business_date\<close> leaves out a phone whose first-abandon business date is
  \<open>None\<close>.
\<close>

type_synonym date_dict = "(int \<times> (string list \<times> int)) list"

definition day_phone_data :: "date_dict \<Rightarrow> int \<Rightarrow> string list \<times> int" where
  "day_phone_data phones_by_date bd =
     (case map_of phones_by_date bd of None \<Rightarrow> ([], 0) | Some x \<Rightarrow> x)"

definition phones_by_date_step :: "string \<times> phone_data \<Rightarrow> date_dict \<Rightarrow> date_dict" where
  "phones_by_date_step = (\<lambda>(ph, d) m.
     (case first_abandon_business_date d of
        None \<Rightarrow> m
      | Some bd \<Rightarrow>
          (let (phones, recovered) = day_phone_data m bd
           in AList.update bd
                (phones @ [ph],
                 if recovery_status d = Some RECOVERED then recovered + 1 else recovered) m)))"

definition phones_by_date :: "phone_dict \<Rightarrow> date_dict" where
  "phones_by_date abandon_phone_data = fold phones_by_date_step abandon_phone_data []"






section \<open>Notions used in the statements\<close>

text \<open>The fields of a record of the ACD log that the passes read.\<close>

abbreviation phone_of :: "row \<Rightarrow> string option" where
  "phone_of r \<equiv> validate_phone_number (safe_get_column r ''Phone'' [])"

abbreviation flag_of :: "row \<Rightarrow> string" where
  "flag_of r \<equiv> safe_get_column r ''Answered/Hungup'' []"

abbreviation wait_of :: "row \<Rightarrow> int" where
  "wait_of r \<equiv> time_to_seconds (safe_get_column r ''Wait Time at ACD'' [])"

abbreviation time_of :: "env \<Rightarrow> row \<Rightarrow> stamp option" where
  "time_of e r \<equiv> validate_timestamp e (safe_get_column r ''Call Time'' [])"

text \<open>
  The test a record of the ACD log passes to become an abandon event: its normalized phone
  and its validated call time, where the flag is HUNGUP and the wait exceeds 27 seconds.
\<close>

definition abandon_event :: "env \<Rightarrow> row \<Rightarrow> (string \<times> stamp) option" where
  "abandon_event e record =
     (case validate_phone_number (safe_get_column record ''Phone'' []) of
        None \<Rightarrow> None
      | Some p \<Rightarrow>
          (case validate_timestamp e (safe_get_column record ''Call Time'' []) of
             None \<Rightarrow> None
           | Some t \<Rightarrow>
               if safe_get_column record ''Answered/Hungup'' [] = ''HUNGUP''
                  \<and> time_to_seconds (safe_get_column record ''Wait Time at ACD'' []) > 27
               then Some (p, t) else None))"

text \<open>The abandon events of the phone \<open>p\<close> in a log, in the order of the log.\<close>

definition events_of :: "env \<Rightarrow> string \<Rightarrow> row list \<Rightarrow> abandon_call list" where
  "events_of e p rows =
     concat (map (\<lambda>r. case abandon_event e r of
                         None \<Rightarrow> []
                       | Some (q, t) \<Rightarrow> if q = p then [mk_abandon_call r t] else []) rows)"

text \<open>A candidate of the recovery search is successful when its disposition is listed.\<close>

definition successful :: "recovery option \<Rightarrow> bool" where
  "successful c = (case c of None \<Rightarrow> False
                   | Some r \<Rightarrow> rc_disposition r \<in> set successful_dispositions)"

text \<open>
  The invariant of the loop of the abandon detector: the aggregate of a phone against the
  abandon events of that phone met so far.
\<close>

text \<open>
  The first-abandon time the loop keeps for a list of call times: it stays \<open>NaT\<close> when
  the first is \<open>NaT\<close>, and is the earliest of the moments otherwise.
\<close>

definition moments :: "stamp list \<Rightarrow> int list" where
  "moments ss = concat (map (\<lambda>s. case s of NaT \<Rightarrow> [] | At t \<Rightarrow> [t]) ss)"

definition first_stamp :: "stamp list \<Rightarrow> stamp" where
  "first_stamp ss = (case ss of At t # rest \<Rightarrow> At (Min (set (moments ss))) | _ \<Rightarrow> NaT)"

definition agg_ok :: "abandon_call list \<Rightarrow> string \<Rightarrow> phone_data \<Rightarrow> bool" where
  "agg_ok evs p d \<longleftrightarrow>
     evs \<noteq> [] \<and> abandon_calls d = evs \<and> total_abandon_calls d = int (length evs)
     \<and> first_abandon_time d = first_stamp (map call_time evs)
     \<and> first_abandon_business_date d = convert_to_business_date (first_abandon_time d)
     \<and> phone d = p \<and> recovery_call d = None \<and> recovery_status d = None"

text \<open>
  The value the loop stores for the phone \<open>p\<close> at an abandon event of the record \<open>r\<close>
  with call time \<open>t\<close>, from the value \<open>old\<close> the dictionary held before.
\<close>

definition stored :: "row \<Rightarrow> string \<Rightarrow> stamp \<Rightarrow> phone_data option \<Rightarrow> phone_data" where
  "stored r p t old =
     (case old of
        None \<Rightarrow>
          \<lparr> phone = p, original_phone = safe_get_column r ''Phone'' [],
            first_abandon_time = t,
            first_abandon_time_str = safe_get_column r ''Call Time'' [],
            first_abandon_business_date = convert_to_business_date t,
            abandon_calls = [mk_abandon_call r t], total_abandon_calls = 1,
            recovery_call = None, recovery_status = None \<rparr>
      | Some d \<Rightarrow>
          (if stamp_less t (first_abandon_time d)
           then d \<lparr> abandon_calls := abandon_calls d @ [mk_abandon_call r t],
                    total_abandon_calls := total_abandon_calls d + 1,
                    first_abandon_time := t,
                    first_abandon_time_str := safe_get_column r ''Call Time'' [],
                    first_abandon_business_date := convert_to_business_date t \<rparr>
           else d \<lparr> abandon_calls := abandon_calls d @ [mk_abandon_call r t],
                    total_abandon_calls := total_abandon_calls d + 1 \<rparr>))"

text \<open>The abandon calls a dictionary holds for a phone; none for an absent phone.\<close>

definition calls_of :: "phone_dict \<Rightarrow> string \<Rightarrow> abandon_call list" where
  "calls_of abandon_phone_data p =
     (case map_of abandon_phone_data p of None \<Rightarrow> [] | Some d \<Rightarrow> abandon_calls d)"

section \<open>Example data\<close>

text \<open>
  An example environment: the clock stands at noon of day 20000, and the parser reads a
  cell that holds the seconds since the epoch in decimal, and the cell \<open>NaT\<close> as \<open>NaT\<close>.
\<close>

definition env0 :: env where
  "env0 = \<lparr> now = 20000 * day + 43200,
            parse_ampm = (\<lambda>s. None),
            parse_any = (\<lambda>s. if s = ''NaT'' then Some NaT
                             else if str_isdigit s then map_option At (py_int s)
                             else None) \<rparr>"

definition acd_row :: "string \<Rightarrow> string \<Rightarrow> string \<Rightarrow> string \<Rightarrow> string \<Rightarrow> row" where
  "acd_row ph flag wait t disp =
     [(''Phone'', Some ph), (''Answered/Hungup'', Some flag), (''Wait Time at ACD'', Some wait),
      (''Call Time'', Some t), (''Queue Name'', Some ''Q1''), (''Username'', Some ''agent''),
      (''User Disposition Code'', Some disp), (''User Talk Time'', Some ''00:01:00'')]"

definition call_row :: "string \<Rightarrow> string \<Rightarrow> string \<Rightarrow> string \<Rightarrow> string \<Rightarrow> row" where
  "call_row ph ctype sysdisp t disp =
     [(''Phone'', Some ph), (''Call Type'', Some ctype), (''System Disposition'', Some sysdisp),
      (''Call Time'', Some t), (''Disposition Code'', Some disp), (''User Name'', Some ''agent''),
      (''User Talk Time'', Some ''00:02:00'')]"

text \<open>
  Day 19999 at 10:00 is second 1727949600, at 11:00 second 1727953200, at 12:00 second
  1727956800; day 19998 at 09:00 is second 1727859600; second 1600000000 lies more than
  three years before the clock.
\<close>

definition row_abandon :: row where
  "row_abandon = acd_row ''+1 (555) 123-4567'' ''HUNGUP'' ''00:00:45'' ''1727949600'' []"


definition row_quick_drop :: row where
  "row_quick_drop = acd_row ''5551234567'' ''HUNGUP'' ''00:00:20'' ''1727949600'' []"

definition row_answered_failed :: row where
  "row_answered_failed = acd_row ''5551234567'' ''ANSWERED'' ''00:00:05'' ''1727953200'' ''Callback''"

definition row_answered_mi :: row where
  "row_answered_mi = acd_row ''5551234567'' ''ANSWERED'' ''00:00:05'' ''1727956800'' ''MI''"

definition row_transferred :: row where
  "row_transferred = acd_row ''5551234567'' ''TRANSFERRED'' ''00:00:05'' ''1727953200'' []"

definition row_old_answered :: row where
  "row_old_answered = acd_row ''5551234567'' ''ANSWERED'' ''00:00:05'' ''1600000000'' ''MI''"

definition call_connected_pqc :: row where
  "call_connected_pqc =
     call_row ''5551234567'' ''outbound.manual.dial'' ''CONNECTED'' ''1727956800'' ''PQC''"

text \<open>The aggregate of the first example record, and the two recovery calls.\<close>

definition agg_example :: phone_data where
  "agg_example = stored row_abandon ''5551234567'' (At 1727949600) None"

definition mi_recovery :: recovery where
  "mi_recovery =
     \<lparr> rc_type = INBOUND, rc_time = At 1727956800, rc_time_str = ''1727956800'',
       rc_business_date = Some 19999, rc_disposition = ''MI'', rc_username = ''agent'',
       rc_talk_time = ''00:01:00'' \<rparr>"

definition pqc_recovery :: recovery where
  "pqc_recovery =
     \<lparr> rc_type = OUTBOUND, rc_time = At 1727956800, rc_time_str = ''1727956800'',
       rc_business_date = Some 19999, rc_disposition = ''PQC'', rc_username = ''agent'',
       rc_talk_time = ''00:02:00'' \<rparr>"

text \<open>An abandon whose call time cell holds the text \<open>NaT\<close>.\<close>

definition row_nat_abandon :: row where
  "row_nat_abandon = acd_row ''5551234567'' ''HUNGUP'' ''00:00:50'' ''NaT'' []"

text \<open>An abandon of another phone, dated like \<open>row_old_answered\<close>.\<close>

definition row_old_abandon :: row where
  "row_old_abandon = acd_row ''5550001111'' ''HUNGUP'' ''00:00:45'' ''1600000000'' []"

section \<open>Properties of the field normalizer\<close>














text \<open>
  Stripping is idempotent. The passes clean the column labels of the frame they are given
  in place, so a frame that an earlier pass has cleaned is cleaned again without change.
\<close>

lemma strip_idem: "strip (strip s) = strip s"
proof -
  define a where "a = dropWhile isspace s"
  define b where "b = rev (dropWhile isspace (rev a))"
  have sb: "strip s = b" by (simp add: strip_def a_def b_def)
  have at_end: "dropWhile isspace (rev b) = rev b"
    by (simp add: b_def)
  have at_start: "dropWhile isspace b = b"
  proof (cases b)
    case Nil
    then show ?thesis by simp
  next
    case (Cons c cs)
    have "rev a = takeWhile isspace (rev a) @ dropWhile isspace (rev a)" by simp
    then have "a = b @ rev (takeWhile isspace (rev a))"
      unfolding b_def by (metis rev_append rev_rev_ident)
    with Cons have a: "a = c # (cs @ rev (takeWhile isspace (rev a)))" by simp
    then have "a \<noteq> []" by (metis list.distinct(1))
    then have "\<not> isspace (hd a)" unfolding a_def by (rule hd_dropWhile)
    with a have "\<not> isspace c" by (metis list.sel(1))
    with Cons show ?thesis by simp
  qed
  have "strip b = b" by (simp add: strip_def at_start at_end)
  with sb show ?thesis by simp
qed

lemma clean_dataframe_columns_idem:
  "clean_dataframe_columns (clean_dataframe_columns df) = clean_dataframe_columns df"
  by (simp add: clean_dataframe_columns_def case_prod_beta strip_idem)

section \<open>Properties of the abandon detector\<close>

lemma call_time_mk: "call_time (mk_abandon_call r t) = t"
  by (simp add: mk_abandon_call_def)

lemma extract_step_None: "abandon_event e r = None \<Longrightarrow> extract_step e r st = st"
  by (auto simp: extract_step_def abandon_event_def Let_def split: option.splits if_splits)

lemma abandon_eventD:
  "abandon_event e r = Some (p, t) \<Longrightarrow>
     validate_phone_number (safe_get_column r ''Phone'' []) = Some p
     \<and> validate_timestamp e (safe_get_column r ''Call Time'' []) = Some t
     \<and> safe_get_column r ''Answered/Hungup'' [] = ''HUNGUP''
     \<and> time_to_seconds (safe_get_column r ''Wait Time at ACD'' []) > 27"
  by (simp add: abandon_event_def split: option.splits if_splits)

lemma extract_step_Some:
  assumes "abandon_event e r = Some (p, t)"
  shows "extract_step e r st = AList.update p (stored r p t (map_of st p)) st"
proof (cases "map_of st p")
  case None
  with abandon_eventD [OF assms] show ?thesis
    by (simp add: extract_step_def Let_def stored_def)
next
  case (Some d)
  with abandon_eventD [OF assms] show ?thesis
    by (simp add: extract_step_def Let_def stored_def)
qed

lemma moments_append: "moments (xs @ ys) = moments xs @ moments ys"
  by (simp add: moments_def)

lemma first_stamp_snoc:
  assumes "ss \<noteq> []"
  shows "first_stamp (ss @ [t]) = (if stamp_less t (first_stamp ss) then t else first_stamp ss)"
proof -
  from assms obtain s1 rest where ss: "ss = s1 # rest" by (cases ss) auto
  show ?thesis
  proof (cases s1)
    case NaT
    with ss show ?thesis by (simp add: first_stamp_def)
  next
    case (At t1)
    define M where "M = set (moments ss)"
    have fin: "finite M" by (simp add: M_def)
    from ss At have ne: "M \<noteq> {}" by (simp add: M_def moments_def)
    from ss At have f: "first_stamp ss = At (Min M)" by (simp add: first_stamp_def M_def)
    show ?thesis
    proof (cases t)
      case NaT
      with ss At f show ?thesis by (simp add: first_stamp_def moments_append M_def moments_def)
    next
      case (At u)
      have "set (moments (ss @ [At u])) = insert u M"
        by (simp add: moments_append M_def) (simp add: moments_def)
      moreover have "Min (insert u M) = min u (Min M)" using fin ne by (rule Min_insert)
      ultimately have "first_stamp (ss @ [At u]) = At (min u (Min M))"
        using ss \<open>s1 = At t1\<close> by (simp add: first_stamp_def)
      with At f show ?thesis by (simp add: min_def)
    qed
  qed
qed

lemma stored_new: "agg_ok [mk_abandon_call r t] p (stored r p t None)"
  by (cases t) (simp_all add: agg_ok_def stored_def call_time_mk first_stamp_def moments_def)

lemma stored_old:
  assumes "agg_ok evs p d0"
  shows "agg_ok (evs @ [mk_abandon_call r t]) p (stored r p t (Some d0))"
proof -
  define f0 where "f0 = first_stamp (map call_time evs)"
  from assms have ne: "map call_time evs \<noteq> []" by (simp add: agg_ok_def)
  have m: "first_stamp (map call_time (evs @ [mk_abandon_call r t]))
             = (if stamp_less t f0 then t else f0)"
    using first_stamp_snoc [OF ne, of t] by (simp add: call_time_mk f0_def)
  from assms have f: "first_abandon_time d0 = f0"
    and rest: "abandon_calls d0 = evs" "total_abandon_calls d0 = int (length evs)"
      "first_abandon_business_date d0 = convert_to_business_date f0"
      "phone d0 = p" "recovery_call d0 = None" "recovery_status d0 = None"
    by (simp_all add: agg_ok_def f0_def)
  show ?thesis
    unfolding agg_ok_def m
    using f rest by (simp add: stored_def)
qed

lemma events_of_snoc:
  "events_of e p (rows @ [r]) =
     events_of e p rows @ (case abandon_event e r of None \<Rightarrow> []
                           | Some (q, t) \<Rightarrow> if q = p then [mk_abandon_call r t] else [])"
  by (simp add: events_of_def)

lemma extract_inv:
  "(map_of (fold (extract_step e) rows []) p = None \<longrightarrow> events_of e p rows = [])
   \<and> (\<forall>d. map_of (fold (extract_step e) rows []) p = Some d \<longrightarrow>
          agg_ok (events_of e p rows) p d)"
proof (induction rows rule: rev_induct)
  case Nil
  show ?case by (simp add: events_of_def)
next
  case (snoc r rows)
  let ?X = "fold (extract_step e) rows []"
  show ?case
  proof (cases "abandon_event e r")
    case None
    with snoc show ?thesis by (simp add: extract_step_None events_of_snoc)
  next
    case (Some qt)
    obtain q t where qt: "qt = (q, t)" by (cases qt)
    note ev = Some [unfolded qt]
    have step: "fold (extract_step e) (rows @ [r]) [] = AList.update q (stored r q t (map_of ?X q)) ?X"
      by (simp add: extract_step_Some [OF ev])
    show ?thesis
    proof (cases "q = p")
      case False
      with snoc ev show ?thesis
        unfolding step by (simp add: events_of_snoc update_conv')
    next
      case True
      show ?thesis
      proof (cases "map_of ?X p")
        case None
        with snoc have e0: "events_of e p rows = []" by simp
        show ?thesis
          unfolding step using e0 ev True None stored_new [of r t p]
          by (simp add: events_of_snoc update_conv')
      next
        case (Some d0)
        with snoc have ok: "agg_ok (events_of e p rows) p d0" by simp
        show ?thesis
          unfolding step using ev True Some stored_old [OF ok, of r t]
          by (simp add: events_of_snoc update_conv')
      qed
    qed
  qed
qed

lemma abandon_event_iff:
  "abandon_event e r = Some (p, t) \<longleftrightarrow>
     phone_of r = Some p \<and> time_of e r = Some t \<and> flag_of r = ''HUNGUP'' \<and> 27 < wait_of r"
  by (simp add: abandon_event_def split: option.splits)

lemma extract_calls:
  "map_of (extract_abandon_phone_numbers e acd_data) p = Some d \<Longrightarrow>
     agg_ok (events_of e p (clean_dataframe_columns acd_data)) p d"
  using extract_inv [of e "clean_dataframe_columns acd_data" p]
  by (simp add: extract_abandon_phone_numbers_def)

lemma extract_absent:
  "map_of (extract_abandon_phone_numbers e acd_data) p = None \<Longrightarrow>
     events_of e p (clean_dataframe_columns acd_data) = []"
  using extract_inv [of e "clean_dataframe_columns acd_data" p]
  by (simp add: extract_abandon_phone_numbers_def)


lemma events_of_Cons:
  "events_of e p (r # rows) =
     (case abandon_event e r of None \<Rightarrow> []
      | Some (q, t) \<Rightarrow> if q = p then [mk_abandon_call r t] else []) @ events_of e p rows"
  by (simp add: events_of_def)





text \<open>
  C8: two logs with the same two abandon events of one phone, one of which has a call time
  cell that parses to \<open>NaT\<close> and passes the timestamp validation. With the \<open>NaT\<close> event
  first the aggregate keeps \<open>NaT\<close> as first-abandon time and no business date; with the
  events in the other order it keeps the moment of the other event and its business date.
\<close>

theorem first_abandon_depends_on_order:
  "validate_timestamp env0 ''NaT'' = Some NaT
   \<and> map (\<lambda>(p, d). (p, map call_time (abandon_calls d),
                     first_abandon_time d, first_abandon_business_date d))
       (extract_abandon_phone_numbers env0 [row_nat_abandon, row_abandon])
     = [(''5551234567'', [NaT, At 1727949600], NaT, None)]
   \<and> map (\<lambda>(p, d). (p, map call_time (abandon_calls d),
                     first_abandon_time d, first_abandon_business_date d))
       (extract_abandon_phone_numbers env0 [row_abandon, row_nat_abandon])
     = [(''5551234567'', [At 1727949600, NaT], At 1727949600, Some 19999)]"
  by code_simp

section \<open>Properties of the metrics aggregator\<close>

lemma fold_metrics_valid:
  "t_valid_calls (fold metrics_step rows t) =
     t_valid_calls t + int (length (filter (\<lambda>r. phone_of r \<noteq> None) rows))"
  by (induction rows arbitrary: t) (simp_all add: metrics_step_def Let_def split: option.splits)

lemma fold_metrics_answered:
  "t_valid_answered (fold metrics_step rows t) =
     t_valid_answered t
     + int (length (filter (\<lambda>r. phone_of r \<noteq> None \<and> flag_of r = ''ANSWERED'') rows))"
  by (induction rows arbitrary: t) (simp_all add: metrics_step_def Let_def split: option.splits)

lemma fold_metrics_hungup:
  "t_valid_hungup (fold metrics_step rows t) =
     t_valid_hungup t
     + int (length (filter (\<lambda>r. phone_of r \<noteq> None \<and> flag_of r = ''HUNGUP'') rows))"
  by (induction rows arbitrary: t) (simp_all add: metrics_step_def Let_def split: option.splits)

lemma fold_metrics_quick:
  "t_quick_drops (fold metrics_step rows t) =
     t_quick_drops t
     + int (length (filter (\<lambda>r. phone_of r \<noteq> None \<and> flag_of r = ''HUNGUP'' \<and> wait_of r \<le> 27)
                      rows))"
  by (induction rows arbitrary: t) (simp_all add: metrics_step_def Let_def split: option.splits)

lemma fold_metrics_abandon:
  "t_abandon_calls (fold metrics_step rows t) =
     t_abandon_calls t
     + int (length (filter (\<lambda>r. phone_of r \<noteq> None \<and> flag_of r = ''HUNGUP'' \<and> 27 < wait_of r)
                      rows))"
  by (induction rows arbitrary: t) (simp_all add: metrics_step_def Let_def split: option.splits)

lemma flag_partition:
  "length (filter (\<lambda>r. phone_of r \<noteq> None \<and> flag_of r = ''ANSWERED'') rows)
   + length (filter (\<lambda>r. phone_of r \<noteq> None \<and> flag_of r = ''HUNGUP'') rows)
   + length (filter (\<lambda>r. phone_of r \<noteq> None \<and> flag_of r \<noteq> ''ANSWERED''
                          \<and> flag_of r \<noteq> ''HUNGUP'') rows)
   = length (filter (\<lambda>r. phone_of r \<noteq> None) rows)"
  by (induction rows) auto

lemma other_flags_none:
  "(\<forall>r \<in> set rows. phone_of r \<noteq> None \<longrightarrow> flag_of r = ''ANSWERED'' \<or> flag_of r = ''HUNGUP'')
     \<longleftrightarrow> filter (\<lambda>r. phone_of r \<noteq> None \<and> flag_of r \<noteq> ''ANSWERED''
                          \<and> flag_of r \<noteq> ''HUNGUP'') rows = []"
  by (induction rows) auto

lemma summary_counts:
  "total_valid_calls (generate_summary_metrics acd_data apd) =
     int (length (filter (\<lambda>r. phone_of r \<noteq> None) (clean_dataframe_columns acd_data)))"
  "total_answered_calls (generate_summary_metrics acd_data apd) =
     int (length (filter (\<lambda>r. phone_of r \<noteq> None \<and> flag_of r = ''ANSWERED'')
                    (clean_dataframe_columns acd_data)))"
  "total_hungup_calls (generate_summary_metrics acd_data apd) =
     int (length (filter (\<lambda>r. phone_of r \<noteq> None \<and> flag_of r = ''HUNGUP'')
                    (clean_dataframe_columns acd_data)))"
  "quick_drops (generate_summary_metrics acd_data apd) =
     int (length (filter (\<lambda>r. phone_of r \<noteq> None \<and> flag_of r = ''HUNGUP'' \<and> wait_of r \<le> 27)
                    (clean_dataframe_columns acd_data)))"
  "abandon_calls_over_27 (generate_summary_metrics acd_data apd) =
     int (length (filter (\<lambda>r. phone_of r \<noteq> None \<and> flag_of r = ''HUNGUP'' \<and> 27 < wait_of r)
                    (clean_dataframe_columns acd_data)))"
  by (simp_all add: generate_summary_metrics_def Let_def fold_metrics_valid
        fold_metrics_answered fold_metrics_hungup fold_metrics_quick fold_metrics_abandon)

text \<open>
  C4, as amended: the valid calls are the records whose phone normalizes; the answered and
  the hungup calls together with the valid records whose flag is neither ANSWERED nor
  HUNGUP make up the valid calls, so the answered and the hungup calls sum to the valid
  calls exactly when every record with a valid phone carries one of the two flags.
\<close>

theorem answered_plus_hungup:
  "total_valid_calls (generate_summary_metrics acd_data apd) =
     int (length (filter (\<lambda>r. phone_of r \<noteq> None) (clean_dataframe_columns acd_data)))
   \<and> total_answered_calls (generate_summary_metrics acd_data apd)
       + total_hungup_calls (generate_summary_metrics acd_data apd)
       + int (length (filter (\<lambda>r. phone_of r \<noteq> None \<and> flag_of r \<noteq> ''ANSWERED''
                                    \<and> flag_of r \<noteq> ''HUNGUP'')
                        (clean_dataframe_columns acd_data)))
       = total_valid_calls (generate_summary_metrics acd_data apd)
   \<and> ((\<forall>r \<in> set (clean_dataframe_columns acd_data).
          phone_of r \<noteq> None \<longrightarrow> flag_of r = ''ANSWERED'' \<or> flag_of r = ''HUNGUP'')
        \<longleftrightarrow> total_answered_calls (generate_summary_metrics acd_data apd)
              + total_hungup_calls (generate_summary_metrics acd_data apd)
            = total_valid_calls (generate_summary_metrics acd_data apd))"
proof -
  let ?rows = "clean_dataframe_columns acd_data"
  let ?m = "generate_summary_metrics acd_data apd"
  let ?other = "filter (\<lambda>r. phone_of r \<noteq> None \<and> flag_of r \<noteq> ''ANSWERED''
                              \<and> flag_of r \<noteq> ''HUNGUP'') ?rows"
  have sum: "total_answered_calls ?m + total_hungup_calls ?m + int (length ?other)
               = total_valid_calls ?m"
    using flag_partition [of ?rows] unfolding summary_counts by linarith
  have "(?other = []) \<longleftrightarrow>
          total_answered_calls ?m + total_hungup_calls ?m = total_valid_calls ?m"
    using sum by auto
  then have iff: "(\<forall>r \<in> set ?rows. phone_of r \<noteq> None \<longrightarrow>
                      flag_of r = ''ANSWERED'' \<or> flag_of r = ''HUNGUP'')
        \<longleftrightarrow> total_answered_calls ?m + total_hungup_calls ?m = total_valid_calls ?m"
    by (simp only: other_flags_none)
  show ?thesis
    by (intro conjI) (rule summary_counts, rule sum, rule iff)
qed

theorem answered_plus_hungup_witness:
  "clean_dataframe_columns [row_abandon, row_answered_mi] = [row_abandon, row_answered_mi]
   \<and> flag_of row_abandon = ''HUNGUP'' \<and> flag_of row_answered_mi = ''ANSWERED''
   \<and> total_answered_calls (generate_summary_metrics [row_abandon, row_answered_mi] [])
       + total_hungup_calls (generate_summary_metrics [row_abandon, row_answered_mi] [])
     = total_valid_calls (generate_summary_metrics [row_abandon, row_answered_mi] [])"
proof -
  have c: "clean_dataframe_columns [row_abandon, row_answered_mi] = [row_abandon, row_answered_mi]"
    by code_simp
  have f: "flag_of row_abandon = ''HUNGUP''" "flag_of row_answered_mi = ''ANSWERED''"
    by code_simp+
  from c f have h: "\<forall>r \<in> set (clean_dataframe_columns [row_abandon, row_answered_mi]).
      phone_of r \<noteq> None \<longrightarrow> flag_of r = ''ANSWERED'' \<or> flag_of r = ''HUNGUP''"
    by simp
  from answered_plus_hungup [of "[row_abandon, row_answered_mi]" "[]",
         THEN conjunct2, THEN conjunct2, THEN iffD1, OF h] c f
  show ?thesis by (intro conjI)
qed

theorem answered_plus_hungup_counterexample:
  "total_answered_calls (generate_summary_metrics [row_answered_mi, row_transferred] [])
     + total_hungup_calls (generate_summary_metrics [row_answered_mi, row_transferred] [])
   \<noteq> total_valid_calls (generate_summary_metrics [row_answered_mi, row_transferred] [])"
  by code_simp

section \<open>The abandon rule\<close>

lemma calls_of_extract:
  "calls_of (extract_abandon_phone_numbers e acd_data) p =
     events_of e p (clean_dataframe_columns acd_data)"
proof (cases "map_of (extract_abandon_phone_numbers e acd_data) p")
  case None
  with extract_absent [OF None] show ?thesis by (simp add: calls_of_def)
next
  case (Some d)
  with extract_calls [OF Some] show ?thesis by (simp add: calls_of_def agg_ok_def)
qed

lemma events_of_append:
  "events_of e p (xs @ ys) = events_of e p xs @ events_of e p ys"
  by (simp add: events_of_def)

lemma abandon_event_cases:
  assumes "phone_of r = Some p" and "time_of e r = Some t"
  shows "abandon_event e r =
           (if flag_of r = ''HUNGUP'' \<and> 27 < wait_of r then Some (p, t) else None)"
  using assms by (simp add: abandon_event_def)

lemma stored_calls:
  "abandon_calls (stored r p t old) =
     (case old of None \<Rightarrow> [] | Some d0 \<Rightarrow> abandon_calls d0) @ [mk_abandon_call r t]"
  by (cases old) (simp_all add: stored_def)

lemma stored_total:
  "total_abandon_calls (stored r p t old) =
     (case old of None \<Rightarrow> 0 | Some d0 \<Rightarrow> total_abandon_calls d0) + 1"
  by (cases old) (simp_all add: stored_def)

text \<open>
  C3: for a record whose phone normalizes to \<open>p\<close> and whose timestamp is valid, the loop
  of the abandon detector appends an abandon event to the aggregate of \<open>p\<close> when the flag is
  HUNGUP and the wait exceeds 27 seconds, and leaves the aggregates as they are otherwise;
  so in the aggregates of a whole log the record stands for one event of \<open>p\<close> in the first
  case and for none in the second. A HUNGUP record with a wait of at most 27 seconds is
  counted by the metrics pass as a valid call, a hungup call and a quick drop, and the
  quick drops of the summary are the records with a valid phone, the flag HUNGUP and a wait
  of at most 27 seconds.
\<close>

theorem abandon_iff_hungup_over_27:
  assumes "phone_of r = Some p" and "time_of e r = Some t"
  shows "(flag_of r = ''HUNGUP'' \<and> 27 < wait_of r \<longrightarrow>
            calls_of (extract_step e r st) p = calls_of st p @ [mk_abandon_call r t]
            \<and> (\<forall>q. q \<noteq> p \<longrightarrow> map_of (extract_step e r st) q = map_of st q))
       \<and> (\<not> (flag_of r = ''HUNGUP'' \<and> 27 < wait_of r) \<longrightarrow> extract_step e r st = st)
       \<and> (\<forall>acd_data pre post q. clean_dataframe_columns acd_data = pre @ r # post \<longrightarrow>
            calls_of (extract_abandon_phone_numbers e acd_data) q =
              events_of e q pre
              @ (if q = p \<and> flag_of r = ''HUNGUP'' \<and> 27 < wait_of r
                 then [mk_abandon_call r t] else [])
              @ events_of e q post)
       \<and> (flag_of r = ''HUNGUP'' \<and> wait_of r \<le> 27 \<longrightarrow>
            metrics_step r m = m \<lparr> t_valid_calls := t_valid_calls m + 1,
                                   t_valid_hungup := t_valid_hungup m + 1,
                                   t_quick_drops := t_quick_drops m + 1 \<rparr>)
       \<and> (\<forall>acd_data apd. quick_drops (generate_summary_metrics acd_data apd) =
            int (length (filter (\<lambda>r. phone_of r \<noteq> None \<and> flag_of r = ''HUNGUP''
                                       \<and> wait_of r \<le> 27)
                           (clean_dataframe_columns acd_data))))"
proof (intro conjI impI allI)
  assume c: "flag_of r = ''HUNGUP'' \<and> 27 < wait_of r"
  with abandon_event_cases [OF assms] have ev: "abandon_event e r = Some (p, t)" by simp
  show "calls_of (extract_step e r st) p = calls_of st p @ [mk_abandon_call r t]"
    by (simp add: extract_step_Some [OF ev] calls_of_def update_conv' stored_calls)
  fix q assume "q \<noteq> p"
  then show "map_of (extract_step e r st) q = map_of st q"
    by (simp add: extract_step_Some [OF ev] update_conv')
next
  assume "\<not> (flag_of r = ''HUNGUP'' \<and> 27 < wait_of r)"
  with abandon_event_cases [OF assms] have "abandon_event e r = None" by simp
  then show "extract_step e r st = st" by (rule extract_step_None)
next
  fix acd_data pre post q
  assume "clean_dataframe_columns acd_data = pre @ r # post"
  then show "calls_of (extract_abandon_phone_numbers e acd_data) q =
              events_of e q pre
              @ (if q = p \<and> flag_of r = ''HUNGUP'' \<and> 27 < wait_of r
                 then [mk_abandon_call r t] else [])
              @ events_of e q post"
    by (simp add: calls_of_extract events_of_append events_of_Cons
          abandon_event_cases [OF assms])
next
  assume "flag_of r = ''HUNGUP'' \<and> wait_of r \<le> 27"
  with assms(1) show "metrics_step r m = m \<lparr> t_valid_calls := t_valid_calls m + 1,
                                   t_valid_hungup := t_valid_hungup m + 1,
                                   t_quick_drops := t_quick_drops m + 1 \<rparr>"
    by (simp add: metrics_step_def Let_def)
next
  fix acd_data apd
  show "quick_drops (generate_summary_metrics acd_data apd) =
            int (length (filter (\<lambda>r. phone_of r \<noteq> None \<and> flag_of r = ''HUNGUP''
                                       \<and> wait_of r \<le> 27)
                           (clean_dataframe_columns acd_data)))"
    by (rule summary_counts)
qed

theorem abandon_iff_hungup_over_27_witness:
  "phone_of row_quick_drop = Some ''5551234567''
   \<and> time_of env0 row_quick_drop = Some (At 1727949600)
   \<and> flag_of row_quick_drop = ''HUNGUP'' \<and> wait_of row_quick_drop = 20
   \<and> extract_step env0 row_quick_drop [] = []
   \<and> t_quick_drops (metrics_step row_quick_drop
         \<lparr> t_valid_calls = 0, t_valid_answered = 0, t_valid_hungup = 0,
           t_quick_drops = 0, t_abandon_calls = 0 \<rparr>) = 1
   \<and> phone_of row_abandon = Some ''5551234567''
   \<and> time_of env0 row_abandon = Some (At 1727949600)
   \<and> flag_of row_abandon = ''HUNGUP'' \<and> wait_of row_abandon = 45
   \<and> calls_of (extract_step env0 row_abandon []) ''5551234567''
       = [mk_abandon_call row_abandon (At 1727949600)]"
proof -
  have q: "phone_of row_quick_drop = Some ''5551234567''"
      "time_of env0 row_quick_drop = Some (At 1727949600)"
      "flag_of row_quick_drop = ''HUNGUP''" "wait_of row_quick_drop = 20"
    by code_simp+
  have a: "phone_of row_abandon = Some ''5551234567''"
      "time_of env0 row_abandon = Some (At 1727949600)"
      "flag_of row_abandon = ''HUNGUP''" "wait_of row_abandon = 45"
    by code_simp+
  let ?m = "\<lparr> t_valid_calls = 0, t_valid_answered = 0, t_valid_hungup = 0,
           t_quick_drops = 0, t_abandon_calls = 0 \<rparr>"
  note tq = abandon_iff_hungup_over_27 [OF q(1) q(2), of "[]" ?m]
  note ta = abandon_iff_hungup_over_27 [OF a(1) a(2), of "[]" ?m]
  from tq [THEN conjunct2, THEN conjunct1] q(4)
  have 1: "extract_step env0 row_quick_drop [] = []" by simp
  from tq [THEN conjunct2, THEN conjunct2, THEN conjunct2, THEN conjunct1] q(3) q(4)
  have 2: "t_quick_drops (metrics_step row_quick_drop ?m) = 1" by simp
  from ta [THEN conjunct1] a(3) a(4)
  have 3: "calls_of (extract_step env0 row_abandon []) ''5551234567''
       = [mk_abandon_call row_abandon (At 1727949600)]" by (simp add: calls_of_def)
  from q a 1 2 3 show ?thesis by (intro conjI)
qed

section \<open>Properties of the recovery matcher\<close>

lemma successful_Some:
  "successful (Some c) \<longleftrightarrow> rc_disposition c \<in> set successful_dispositions"
  by (simp add: successful_def)

lemma successful_None: "\<not> successful None"
  by (simp add: successful_def)

lemma scan_log_success:
  assumes "\<forall>r \<in> set pre. \<not> successful (cand r)"
    and "cand r = Some c" and "successful (Some c)"
  shows "scan_log cand (pre @ r # post) d =
           (d \<lparr> recovery_call := Some c, recovery_status := Some RECOVERED \<rparr>, True)"
  using assms
proof (induction pre arbitrary: d)
  case Nil
  then show ?case by (simp add: successful_Some)
next
  case (Cons x pre)
  from Cons.prems have nx: "\<not> successful (cand x)"
    and rest: "\<forall>r \<in> set pre. \<not> successful (cand r)" by simp_all
  note IH = Cons.IH [OF rest Cons.prems(2,3)]
  show ?case
  proof (cases "cand x")
    case None
    then show ?thesis by (simp add: IH)
  next
    case (Some c')
    with nx have "rc_disposition c' \<notin> set successful_dispositions"
      by (simp add: successful_Some)
    with Some show ?thesis by (simp add: IH)
  qed
qed

lemma scan_log_no_success:
  assumes "\<forall>r \<in> set rows. \<not> successful (cand r)"
  shows "\<exists>rc st. scan_log cand rows d = (d \<lparr> recovery_call := rc, recovery_status := st \<rparr>, False)"
  using assms
proof (induction rows arbitrary: d)
  case Nil
  have "d = d \<lparr> recovery_call := recovery_call d, recovery_status := recovery_status d \<rparr>"
    by simp
  then show ?case by (metis scan_log.simps(1))
next
  case (Cons x rows)
  from Cons.prems have nx: "\<not> successful (cand x)"
    and rest: "\<forall>r \<in> set rows. \<not> successful (cand r)" by simp_all
  note IH = Cons.IH [OF rest]
  show ?case
  proof (cases "cand x")
    case None
    with IH [of d] show ?thesis by simp
  next
    case (Some c')
    with nx have ns: "rc_disposition c' \<notin> set successful_dispositions"
      by (simp add: successful_Some)
    show ?thesis
    proof (cases "recovery_call d = None")
      case True
      from IH [of "d \<lparr> recovery_call := Some c', recovery_status := Some ATTEMPTED \<rparr>"]
      obtain rc st where
        "scan_log cand rows (d \<lparr> recovery_call := Some c', recovery_status := Some ATTEMPTED \<rparr>)
           = (d \<lparr> recovery_call := rc, recovery_status := st \<rparr>, False)"
        by auto
      with Some ns True show ?thesis by auto
    next
      case False
      with Some ns IH [of d] show ?thesis by auto
    qed
  qed
qed

lemma scan_log_found:
  "scan_log cand rows d = (d', True) \<Longrightarrow> recovery_status d' = Some RECOVERED"
proof (induction rows arbitrary: d)
  case Nil
  then show ?case by simp
next
  case (Cons x rows)
  show ?case
  proof (cases "cand x")
    case None
    with Cons show ?thesis by simp
  next
    case (Some c)
    with Cons show ?thesis by (auto split: if_splits)
  qed
qed

lemma recover_phone_status:
  "recovery_status (recover_phone e acd_data call_data ph d) = Some RECOVERED
   \<or> recovery_status (recover_phone e acd_data call_data ph d) = Some NEEDS_OUTBOUND"
proof -
  let ?fat = "first_abandon_time d"
  obtain d1 f1 where s1: "scan_log (inbound_candidate e ph ?fat) acd_data d = (d1, f1)"
    by (cases "scan_log (inbound_candidate e ph ?fat) acd_data d")
  obtain d2 f2 where s2: "scan_log (outbound_candidate e ph ?fat) call_data d1 = (d2, f2)"
    by (cases "scan_log (outbound_candidate e ph ?fat) call_data d1")
  show ?thesis
  proof (cases f1)
    case True
    with s1 scan_log_found [of _ acd_data d d1] show ?thesis
      by (simp add: recover_phone_def Let_def)
  next
    case f1: False
    show ?thesis
    proof (cases "call_data = []")
      case True
      with s1 f1 show ?thesis by (simp add: recover_phone_def Let_def)
    next
      case ne: False
      show ?thesis
      proof (cases f2)
        case True
        with s1 s2 f1 ne scan_log_found [of _ call_data d1 d2] show ?thesis
          by (simp add: recover_phone_def Let_def)
      next
        case False
        with s1 s2 f1 ne show ?thesis by (simp add: recover_phone_def Let_def)
      qed
    qed
  qed
qed

lemma inbound_candidate_iff:
  "inbound_candidate e ph fat r \<noteq> None \<longleftrightarrow>
     phone_of r = Some ph \<and> flag_of r = ''ANSWERED'' \<and> (\<exists>t. time_of e r = Some t \<and> stamp_less fat t)"
  by (auto simp: inbound_candidate_def Let_def split: option.splits)

lemma outbound_candidate_iff:
  "outbound_candidate e ph fat r \<noteq> None \<longleftrightarrow>
     phone_of r = Some ph \<and> safe_get_column r ''Call Type'' [] = ''outbound.manual.dial''
     \<and> safe_get_column r ''System Disposition'' [] = ''CONNECTED''
     \<and> (\<exists>t. time_of e r = Some t \<and> stamp_less fat t)"
  by (auto simp: outbound_candidate_def Let_def split: option.splits)

lemma inbound_candidate_type: "inbound_candidate e ph fat r = Some c \<Longrightarrow> rc_type c = INBOUND"
  by (auto simp: inbound_candidate_def Let_def split: option.splits if_splits)

lemma outbound_candidate_type: "outbound_candidate e ph fat r = Some c \<Longrightarrow> rc_type c = OUTBOUND"
  by (auto simp: outbound_candidate_def Let_def split: option.splits if_splits)

lemma recover_phone_inbound:
  assumes "\<forall>x \<in> set pre. \<not> successful (inbound_candidate e ph (first_abandon_time d) x)"
    and "inbound_candidate e ph (first_abandon_time d) r = Some c" and "successful (Some c)"
  shows "recover_phone e (pre @ r # post) call_data ph d =
           d \<lparr> recovery_call := Some c, recovery_status := Some RECOVERED \<rparr>"
  by (simp add: recover_phone_def Let_def scan_log_success [OF assms])

lemma recover_phone_outbound:
  assumes "\<forall>x \<in> set acd_data. \<not> successful (inbound_candidate e ph (first_abandon_time d) x)"
    and "\<forall>x \<in> set pre. \<not> successful (outbound_candidate e ph (first_abandon_time d) x)"
    and "outbound_candidate e ph (first_abandon_time d) r = Some c" and "successful (Some c)"
  shows "recover_phone e acd_data (pre @ r # post) ph d =
           d \<lparr> recovery_call := Some c, recovery_status := Some RECOVERED \<rparr>"
proof -
  from scan_log_no_success [OF assms(1), of d] obtain rc st where
    s1: "scan_log (inbound_candidate e ph (first_abandon_time d)) acd_data d
           = (d \<lparr> recovery_call := rc, recovery_status := st \<rparr>, False)"
    by blast
  show ?thesis
    by (simp add: recover_phone_def Let_def s1 scan_log_success [OF assms(2,3,4)])
qed

lemma find_recovery_calls_map:
  "find_recovery_calls e apd acd_data call_data =
     map (\<lambda>(ph, d). (ph, recover_phone e (clean_dataframe_columns acd_data)
                               (clean_dataframe_columns call_data) ph d)) apd"
  by (simp add: find_recovery_calls_def)

text \<open>
  C2: an inbound candidate is a record of the phone with the flag ANSWERED and a valid call
  time after the first abandon, an outbound candidate a record of the phone with call type
  \<open>outbound.manual.dial\<close>, system disposition CONNECTED and such a call time, where a
  time is after another when both are moments and the one is the later; a candidate is
  successful when its disposition is in the list. Where the inbound log holds a
  successful candidate, the first of them becomes the recovery call and the status becomes
  RECOVERED, whatever follows it in the inbound log and whatever the outbound log holds;
  where the inbound log holds none, the first successful candidate of the outbound log
  becomes the recovery call with status RECOVERED, whatever follows it. Nothing else of the
  aggregate changes, and \<open>find_recovery_calls\<close> does this for every phone.
\<close>

theorem recovery_first_success:
  "(\<forall>r fat. inbound_candidate e ph fat r \<noteq> None \<longleftrightarrow>
       phone_of r = Some ph \<and> flag_of r = ''ANSWERED''
       \<and> (\<exists>t. time_of e r = Some t \<and> stamp_less fat t))
   \<and> (\<forall>r fat. outbound_candidate e ph fat r \<noteq> None \<longleftrightarrow>
       phone_of r = Some ph \<and> safe_get_column r ''Call Type'' [] = ''outbound.manual.dial''
       \<and> safe_get_column r ''System Disposition'' [] = ''CONNECTED''
       \<and> (\<exists>t. time_of e r = Some t \<and> stamp_less fat t))
   \<and> (\<forall>c. successful (Some c) \<longleftrightarrow> rc_disposition c \<in> set successful_dispositions)
   \<and> (\<forall>pre r post c calls.
         (\<forall>x \<in> set pre. \<not> successful (inbound_candidate e ph (first_abandon_time d) x))
         \<and> inbound_candidate e ph (first_abandon_time d) r = Some c \<and> successful (Some c)
         \<longrightarrow> recover_phone e (pre @ r # post) calls ph d =
               d \<lparr> recovery_call := Some c, recovery_status := Some RECOVERED \<rparr>
             \<and> rc_type c = INBOUND)
   \<and> (\<forall>acd pre r post c.
         (\<forall>x \<in> set acd. \<not> successful (inbound_candidate e ph (first_abandon_time d) x))
         \<and> (\<forall>x \<in> set pre. \<not> successful (outbound_candidate e ph (first_abandon_time d) x))
         \<and> outbound_candidate e ph (first_abandon_time d) r = Some c \<and> successful (Some c)
         \<longrightarrow> recover_phone e acd (pre @ r # post) ph d =
               d \<lparr> recovery_call := Some c, recovery_status := Some RECOVERED \<rparr>
             \<and> rc_type c = OUTBOUND)
   \<and> (\<forall>apd acd_data call_data.
         find_recovery_calls e apd acd_data call_data =
           map (\<lambda>(p, a). (p, recover_phone e (clean_dataframe_columns acd_data)
                                  (clean_dataframe_columns call_data) p a)) apd)"
proof (intro conjI allI impI)
  fix r fat
  show "inbound_candidate e ph fat r \<noteq> None \<longleftrightarrow>
       phone_of r = Some ph \<and> flag_of r = ''ANSWERED''
       \<and> (\<exists>t. time_of e r = Some t \<and> stamp_less fat t)"
    by (rule inbound_candidate_iff)
  show "outbound_candidate e ph fat r \<noteq> None \<longleftrightarrow>
       phone_of r = Some ph \<and> safe_get_column r ''Call Type'' [] = ''outbound.manual.dial''
       \<and> safe_get_column r ''System Disposition'' [] = ''CONNECTED''
       \<and> (\<exists>t. time_of e r = Some t \<and> stamp_less fat t)"
    by (rule outbound_candidate_iff)
next
  fix c show "successful (Some c) \<longleftrightarrow> rc_disposition c \<in> set successful_dispositions"
    by (rule successful_Some)
next
  fix pre r post c calls
  assume a: "(\<forall>x \<in> set pre. \<not> successful (inbound_candidate e ph (first_abandon_time d) x))
         \<and> inbound_candidate e ph (first_abandon_time d) r = Some c \<and> successful (Some c)"
  then show "recover_phone e (pre @ r # post) calls ph d =
               d \<lparr> recovery_call := Some c, recovery_status := Some RECOVERED \<rparr>"
    by (intro recover_phone_inbound) simp_all
  from a show "rc_type c = INBOUND"
    by (intro inbound_candidate_type [of e ph "first_abandon_time d" r]) simp
next
  fix acd pre r post c
  assume a: "(\<forall>x \<in> set acd. \<not> successful (inbound_candidate e ph (first_abandon_time d) x))
         \<and> (\<forall>x \<in> set pre. \<not> successful (outbound_candidate e ph (first_abandon_time d) x))
         \<and> outbound_candidate e ph (first_abandon_time d) r = Some c \<and> successful (Some c)"
  then show "recover_phone e acd (pre @ r # post) ph d =
               d \<lparr> recovery_call := Some c, recovery_status := Some RECOVERED \<rparr>"
    by (intro recover_phone_outbound) simp_all
  from a show "rc_type c = OUTBOUND"
    by (intro outbound_candidate_type [of e ph "first_abandon_time d" r]) simp
next
  fix apd acd_data call_data
  show "find_recovery_calls e apd acd_data call_data =
           map (\<lambda>(p, a). (p, recover_phone e (clean_dataframe_columns acd_data)
                                  (clean_dataframe_columns call_data) p a)) apd"
    by (rule find_recovery_calls_map)
qed

theorem recovery_first_success_witness:
  "\<not> successful (inbound_candidate env0 ''5551234567'' (first_abandon_time agg_example)
                    row_abandon)
   \<and> \<not> successful (inbound_candidate env0 ''5551234567'' (first_abandon_time agg_example)
                      row_answered_failed)
   \<and> inbound_candidate env0 ''5551234567'' (first_abandon_time agg_example) row_answered_mi
       = Some mi_recovery
   \<and> successful (Some mi_recovery)
   \<and> recover_phone env0 [row_abandon, row_answered_failed, row_answered_mi, row_transferred]
       [call_connected_pqc] ''5551234567'' agg_example
       = agg_example \<lparr> recovery_call := Some mi_recovery, recovery_status := Some RECOVERED \<rparr>
   \<and> outbound_candidate env0 ''5551234567'' (first_abandon_time agg_example) call_connected_pqc
       = Some pqc_recovery
   \<and> successful (Some pqc_recovery)
   \<and> recover_phone env0 [row_abandon, row_answered_failed] [call_connected_pqc]
       ''5551234567'' agg_example
       = agg_example \<lparr> recovery_call := Some pqc_recovery, recovery_status := Some RECOVERED \<rparr>"
proof -
  let ?fat = "first_abandon_time agg_example"
  have n1: "\<not> successful (inbound_candidate env0 ''5551234567'' ?fat row_abandon)"
    by code_simp
  have n2: "\<not> successful (inbound_candidate env0 ''5551234567'' ?fat row_answered_failed)"
    by code_simp
  from n1 n2 have i1: "\<forall>x \<in> set [row_abandon, row_answered_failed].
       \<not> successful (inbound_candidate env0 ''5551234567'' ?fat x)" by simp
  have i2: "inbound_candidate env0 ''5551234567'' ?fat row_answered_mi = Some mi_recovery"
    by code_simp
  have i3: "successful (Some mi_recovery)" by code_simp
  have o1: "\<forall>x \<in> set ([] :: row list).
       \<not> successful (outbound_candidate env0 ''5551234567'' ?fat x)" by simp
  have o2: "outbound_candidate env0 ''5551234567'' ?fat call_connected_pqc = Some pqc_recovery"
    by code_simp
  have o3: "successful (Some pqc_recovery)" by code_simp
  note th = recovery_first_success [of env0 "''5551234567''" agg_example]
  note inb = th [THEN conjunct2, THEN conjunct2, THEN conjunct2, THEN conjunct1, rule_format,
                 of "[row_abandon, row_answered_failed]" row_answered_mi mi_recovery
                    "[row_transferred]" "[call_connected_pqc]", THEN conjunct1]
  note outb = th [THEN conjunct2, THEN conjunct2, THEN conjunct2, THEN conjunct2,
                  THEN conjunct1, rule_format,
                  of "[row_abandon, row_answered_failed]" "[]" call_connected_pqc
                     pqc_recovery "[]", THEN conjunct1]
  have r1: "recover_phone env0 [row_abandon, row_answered_failed, row_answered_mi, row_transferred]
       [call_connected_pqc] ''5551234567'' agg_example
       = agg_example \<lparr> recovery_call := Some mi_recovery, recovery_status := Some RECOVERED \<rparr>"
    using inb i1 i2 i3 by simp
  have r2: "recover_phone env0 [row_abandon, row_answered_failed] [call_connected_pqc]
       ''5551234567'' agg_example
       = agg_example \<lparr> recovery_call := Some pqc_recovery, recovery_status := Some RECOVERED \<rparr>"
    using outb i1 o1 o2 o3 by simp
  from n1 n2 i2 i3 r1 o2 o3 r2 show ?thesis by (intro conjI)
qed

text \<open>
  C1: a log with one abandon of a phone and one later answered call of that phone whose
  disposition is not in the list. The inbound scan records the call as an attempt with
  status ATTEMPTED; the phone leaves \<open>find_recovery_calls\<close> with this recovery call and
  the status NEEDS_OUTBOUND, and no phone ever leaves it with the status ATTEMPTED.
\<close>

theorem attempted_status_overwritten:
  "map (\<lambda>(p, d). recovery_status
          (fst (scan_log (inbound_candidate env0 p (first_abandon_time d))
                  (clean_dataframe_columns [row_abandon, row_answered_failed]) d)))
     (extract_abandon_phone_numbers env0 [row_abandon, row_answered_failed])
     = [Some ATTEMPTED]
   \<and> map (\<lambda>(p, d). (p, recovery_status d, map_option rc_disposition (recovery_call d)))
       (analysed_phones env0 [row_abandon, row_answered_failed] [])
     = [(''5551234567'', Some NEEDS_OUTBOUND, Some ''Callback'')]
   \<and> (\<forall>e acd_data call_data ph d.
         recovery_status (recover_phone e acd_data call_data ph d) \<noteq> Some ATTEMPTED)"
proof (intro conjI allI)
  show "map (\<lambda>(p, d). recovery_status
          (fst (scan_log (inbound_candidate env0 p (first_abandon_time d))
                  (clean_dataframe_columns [row_abandon, row_answered_failed]) d)))
     (extract_abandon_phone_numbers env0 [row_abandon, row_answered_failed])
     = [Some ATTEMPTED]"
    by code_simp
  show "map (\<lambda>(p, d). (p, recovery_status d, map_option rc_disposition (recovery_call d)))
       (analysed_phones env0 [row_abandon, row_answered_failed] [])
     = [(''5551234567'', Some NEEDS_OUTBOUND, Some ''Callback'')]"
    by code_simp
next
  fix e acd_data call_data ph d
  from recover_phone_status [of e acd_data call_data ph d]
  show "recovery_status (recover_phone e acd_data call_data ph d) \<noteq> Some ATTEMPTED"
    by auto
qed

section \<open>Totals of the aggregates and the rate\<close>

lemma round_half_even_bounds:
  assumes "0 \<le> y" and "y \<le> 1000"
  shows "0 \<le> round_half_even y \<and> round_half_even y \<le> 1000"
proof -
  define f where "f = \<lfloor>y\<rfloor>"
  from assms have f0: "0 \<le> f" by (simp add: f_def)
  from assms have f1: "f \<le> 1000" by (simp add: f_def floor_le_iff)
  have fy: "of_int f \<le> y" by (simp add: f_def)
  have r: "round_half_even y =
             (if y - of_int f < 1 / 2 then f else if y - of_int f > 1 / 2 then f + 1
              else if even f then f else f + 1)"
    by (simp add: round_half_even_def Let_def f_def)
  show ?thesis
  proof (cases "f = 1000")
    case True
    with fy assms(2) have "y - of_int f = 0" by simp
    with True show ?thesis unfolding r by simp
  next
    case False
    with f1 have "f + 1 \<le> 1000" by linarith
    with f0 f1 show ?thesis unfolding r by (simp split: if_splits)
  qed
qed

lemma py_round1_bounds:
  assumes "0 \<le> x" and "x \<le> 100"
  shows "0 \<le> py_round1 x \<and> py_round1 x \<le> 100"
proof -
  from assms have "0 \<le> x * 10" and "x * 10 \<le> 1000" by simp_all
  from round_half_even_bounds [OF this]
  have "0 \<le> round_half_even (x * 10)" and "round_half_even (x * 10) \<le> 1000" by simp_all
  then have "(0::rat) \<le> of_int (round_half_even (x * 10))"
    and "(of_int (round_half_even (x * 10)) :: rat) \<le> 1000"
    by simp_all
  then show ?thesis by (simp add: py_round1_def)
qed

lemma ratio_bounds:
  fixes a v :: int
  assumes "0 \<le> a" and "a \<le> v" and "0 < v"
  shows "(0::rat) \<le> of_int a / of_int v * 100 \<and> (of_int a / of_int v * 100 :: rat) \<le> 100"
proof -
  define q :: rat where "q = of_int a / of_int v"
  from assms have "0 \<le> q" by (simp add: q_def)
  moreover from assms have "q \<le> 1" by (simp add: q_def)
  ultimately have "0 \<le> q * 100 \<and> q * 100 \<le> 100" by linarith
  then show ?thesis by (simp only: q_def)
qed

lemma fold_rate_step:
  "fold rate_step rows (v, a) =
     (v + int (length (filter (\<lambda>r. phone_of r \<noteq> None) rows)),
      a + int (length (filter (\<lambda>r. phone_of r \<noteq> None \<and> flag_of r = ''HUNGUP'' \<and> 27 < wait_of r)
                         rows)))"
  by (induction rows arbitrary: v a) (simp_all add: rate_step_def split: option.splits)

lemma fold_recovered:
  "fold (\<lambda>(ph, d) acc. if recovery_status d = Some RECOVERED
                          then acc + total_abandon_calls d else acc) apd acc
   = acc + sum_list (map (total_abandon_calls \<circ> snd)
                      (filter (\<lambda>(ph, d). recovery_status d = Some RECOVERED) apd))"
  by (induction apd arbitrary: acc) (auto simp: case_prod_beta)

lemma recovered_abandon_calls_sum:
  "recovered_abandon_calls apd =
     sum_list (map (total_abandon_calls \<circ> snd)
                 (filter (\<lambda>(ph, d). recovery_status d = Some RECOVERED) apd))"
  by (simp add: recovered_abandon_calls_def fold_recovered)

lemma sum_list_filter_le:
  fixes f :: "'a \<Rightarrow> int"
  assumes "\<forall>x \<in> set xs. 0 \<le> f x"
  shows "0 \<le> sum_list (map f (filter P xs)) \<and> sum_list (map f (filter P xs)) \<le> sum_list (map f xs)"
  using assms by (induction xs) auto

lemma sum_update:
  fixes f :: "'v \<Rightarrow> int"
  shows "sum_list (map (f \<circ> snd) (AList.update k v al)) =
     sum_list (map (f \<circ> snd) al) - (case map_of al k of None \<Rightarrow> 0 | Some old \<Rightarrow> f old) + f v"
  by (induction al) auto

lemma filter_length_mono:
  assumes "\<And>x. P x \<Longrightarrow> Q x"
  shows "length (filter P xs) \<le> length (filter Q xs)"
  using assms by (induction xs) auto

lemma extract_distinct: "distinct (map fst (fold (extract_step e) rows []))"
proof (induction rows rule: rev_induct)
  case Nil
  show ?case by simp
next
  case (snoc r rows)
  show ?case
  proof (cases "abandon_event e r")
    case None
    with snoc show ?thesis by (simp add: extract_step_None)
  next
    case (Some qt)
    obtain q t where "qt = (q, t)" by (cases qt)
    with Some have ev: "abandon_event e r = Some (q, t)" by simp
    from snoc show ?thesis
      by (simp add: extract_step_Some [OF ev] distinct_update)
  qed
qed

lemma extract_total_sum:
  "sum_list (map (total_abandon_calls \<circ> snd) (fold (extract_step e) rows [])) =
     int (length (filter (\<lambda>r. abandon_event e r \<noteq> None) rows))"
proof (induction rows rule: rev_induct)
  case Nil
  show ?case by simp
next
  case (snoc r rows)
  show ?case
  proof (cases "abandon_event e r")
    case None
    with snoc show ?thesis by (simp add: extract_step_None)
  next
    case (Some qt)
    obtain q t where "qt = (q, t)" by (cases qt)
    with Some have ev: "abandon_event e r = Some (q, t)" by simp
    let ?X = "fold (extract_step e) rows []"
    have upd: "sum_list (map (total_abandon_calls \<circ> snd) (AList.update q (stored r q t (map_of ?X q)) ?X))
            = sum_list (map (total_abandon_calls \<circ> snd) ?X) + 1"
      by (simp add: sum_update stored_total split: option.splits)
    have step: "fold (extract_step e) (rows @ [r]) [] =
                  AList.update q (stored r q t (map_of ?X q)) ?X"
      by (simp add: extract_step_Some [OF ev])
    have filt: "int (length (filter (\<lambda>r. abandon_event e r \<noteq> None) (rows @ [r]))) =
                  int (length (filter (\<lambda>r. abandon_event e r \<noteq> None) rows)) + 1"
      using ev by simp
    show ?thesis unfolding step filt upd by (simp only: snoc.IH)
  qed
qed

lemma extract_total_nonneg:
  assumes "x \<in> set (fold (extract_step e) rows [])"
  shows "0 \<le> total_abandon_calls (snd x)"
proof -
  obtain p d where x: "x = (p, d)" by (cases x)
  with assms extract_distinct [of e rows]
  have "map_of (fold (extract_step e) rows []) p = Some d" by simp
  with extract_inv [of e rows p] have "agg_ok (events_of e p rows) p d" by simp
  with x show ?thesis by (simp add: agg_ok_def)
qed

lemma scan_log_fields:
  "\<exists>rc st. fst (scan_log cand rows d) = d \<lparr> recovery_call := rc, recovery_status := st \<rparr>"
proof (induction rows arbitrary: d)
  case Nil
  have "d = d \<lparr> recovery_call := recovery_call d, recovery_status := recovery_status d \<rparr>"
    by simp
  then show ?case by (metis scan_log.simps(1) fst_conv)
next
  case (Cons x rows)
  show ?case
  proof (cases "cand x")
    case None
    with Cons [of d] show ?thesis by simp
  next
    case (Some c)
    show ?thesis
    proof (cases "rc_disposition c \<in> set successful_dispositions")
      case True
      with Some show ?thesis by auto
    next
      case ns: False
      show ?thesis
      proof (cases "recovery_call d = None")
        case True
        from Cons [of "d \<lparr> recovery_call := Some c, recovery_status := Some ATTEMPTED \<rparr>"]
        obtain rc st where
          "fst (scan_log cand rows (d \<lparr> recovery_call := Some c, recovery_status := Some ATTEMPTED \<rparr>))
             = d \<lparr> recovery_call := rc, recovery_status := st \<rparr>"
          by auto
        with Some ns True show ?thesis by auto
      next
        case False
        with Some ns Cons [of d] show ?thesis by auto
      qed
    qed
  qed
qed

lemma recover_phone_fields:
  "\<exists>rc st. recover_phone e acd_data call_data ph d =
     d \<lparr> recovery_call := rc, recovery_status := st \<rparr>"
proof -
  let ?fat = "first_abandon_time d"
  obtain d1 f1 where s1: "scan_log (inbound_candidate e ph ?fat) acd_data d = (d1, f1)"
    by (cases "scan_log (inbound_candidate e ph ?fat) acd_data d")
  obtain d2 f2 where s2: "scan_log (outbound_candidate e ph ?fat) call_data d1 = (d2, f2)"
    by (cases "scan_log (outbound_candidate e ph ?fat) call_data d1")
  from scan_log_fields [of "inbound_candidate e ph ?fat" acd_data d] s1
  obtain rc1 st1 where d1: "d1 = d \<lparr> recovery_call := rc1, recovery_status := st1 \<rparr>"
    by auto
  from scan_log_fields [of "outbound_candidate e ph ?fat" call_data d1] s2
  obtain rc2 st2 where "d2 = d1 \<lparr> recovery_call := rc2, recovery_status := st2 \<rparr>"
    by auto
  with d1 have d2: "d2 = d \<lparr> recovery_call := rc2, recovery_status := st2 \<rparr>" by simp
  have "recover_phone e acd_data call_data ph d \<in>
          {d1, d1 \<lparr> recovery_status := Some NEEDS_OUTBOUND \<rparr>,
           d2, d2 \<lparr> recovery_status := Some NEEDS_OUTBOUND \<rparr>}"
    using s1 s2 by (simp add: recover_phone_def Let_def)
  then consider "recover_phone e acd_data call_data ph d = d1"
    | "recover_phone e acd_data call_data ph d = d1 \<lparr> recovery_status := Some NEEDS_OUTBOUND \<rparr>"
    | "recover_phone e acd_data call_data ph d = d2"
    | "recover_phone e acd_data call_data ph d = d2 \<lparr> recovery_status := Some NEEDS_OUTBOUND \<rparr>"
    by auto
  then show ?thesis
  proof cases
    case 1 with d1 show ?thesis by blast
  next
    case 2
    with d1 have "recover_phone e acd_data call_data ph d =
      d \<lparr> recovery_call := rc1, recovery_status := Some NEEDS_OUTBOUND \<rparr>" by simp
    then show ?thesis by blast
  next
    case 3 with d2 show ?thesis by blast
  next
    case 4
    with d2 have "recover_phone e acd_data call_data ph d =
      d \<lparr> recovery_call := rc2, recovery_status := Some NEEDS_OUTBOUND \<rparr>" by simp
    then show ?thesis by blast
  qed
qed

lemma recover_phone_total:
  "total_abandon_calls (recover_phone e acd_data call_data ph d) = total_abandon_calls d"
proof -
  from recover_phone_fields [of e acd_data call_data ph d]
  obtain rc st where "recover_phone e acd_data call_data ph d =
     d \<lparr> recovery_call := rc, recovery_status := st \<rparr>" by blast
  then show ?thesis by simp
qed


lemma find_recovery_calls_totals:
  "map (total_abandon_calls \<circ> snd) (find_recovery_calls e apd acd_data call_data) =
     map (total_abandon_calls \<circ> snd) apd"
  by (simp add: find_recovery_calls_map case_prod_beta recover_phone_total)


lemma rate_formula:
  "calculate_corrected_abandonment_rate (clean_dataframe_columns acd_data) apd =
     (if 0 < total_valid_calls (generate_summary_metrics acd_data apd)
      then py_round1 (of_int (abandon_calls_over_27 (generate_summary_metrics acd_data apd)
                               - recovered_abandon_calls apd)
                      / of_int (total_valid_calls (generate_summary_metrics acd_data apd)) * 100)
      else 0)"
  by (simp add: calculate_corrected_abandonment_rate_def fold_rate_step summary_counts
        clean_dataframe_columns_idem)

lemma summary_rate:
  "abandonment_rate (generate_summary_metrics acd_data apd) =
     calculate_corrected_abandonment_rate (clean_dataframe_columns acd_data) apd"
  by (simp add: generate_summary_metrics_def Let_def)

lemma analysed_recovered_bounds:
  "0 \<le> recovered_abandon_calls (analysed_phones e acd_data call_data)
   \<and> recovered_abandon_calls (analysed_phones e acd_data call_data)
       \<le> abandon_calls_over_27 (generate_summary_metrics acd_data apd)
   \<and> abandon_calls_over_27 (generate_summary_metrics acd_data apd)
       \<le> total_valid_calls (generate_summary_metrics acd_data apd)"
proof -
  let ?rows = "clean_dataframe_columns acd_data"
  let ?X = "extract_abandon_phone_numbers e acd_data"
  let ?A = "analysed_phones e acd_data call_data"
  let ?f = "total_abandon_calls \<circ> snd"
  have tot: "map ?f ?A = map ?f ?X"
    by (simp only: analysed_phones_def find_recovery_calls_totals)
  have nonneg: "\<forall>x \<in> set ?A. 0 \<le> ?f x"
  proof -
    have "\<forall>y \<in> set (map ?f ?X). 0 \<le> y"
      using extract_total_nonneg [of _ e ?rows]
      by (auto simp: extract_abandon_phone_numbers_def)
    then have "\<forall>y \<in> set (map ?f ?A). 0 \<le> y" by (simp only: tot)
    then show ?thesis by simp
  qed
  from sum_list_filter_le [OF nonneg, of "\<lambda>(ph, d). recovery_status d = Some RECOVERED"]
  have r0: "0 \<le> recovered_abandon_calls ?A"
    and r1: "recovered_abandon_calls ?A \<le> sum_list (map ?f ?A)"
    by (simp_all only: recovered_abandon_calls_sum)
  have "sum_list (map ?f ?A) = sum_list (map ?f ?X)" by (simp only: tot)
  also have "\<dots> = int (length (filter (\<lambda>r. abandon_event e r \<noteq> None) ?rows))"
    by (simp only: extract_abandon_phone_numbers_def extract_total_sum)
  also have "\<dots> \<le> int (length (filter (\<lambda>r. phone_of r \<noteq> None \<and> flag_of r = ''HUNGUP''
                                               \<and> 27 < wait_of r) ?rows))"
  proof -
    have "length (filter (\<lambda>r. abandon_event e r \<noteq> None) ?rows)
            \<le> length (filter (\<lambda>r. phone_of r \<noteq> None \<and> flag_of r = ''HUNGUP''
                                       \<and> 27 < wait_of r) ?rows)"
      by (rule filter_length_mono) (auto simp: abandon_event_iff)
    then show ?thesis by simp
  qed
  finally have r2: "sum_list (map ?f ?A) \<le> abandon_calls_over_27 (generate_summary_metrics acd_data apd)"
    by (simp only: summary_counts)
  have "length (filter (\<lambda>r. phone_of r \<noteq> None \<and> flag_of r = ''HUNGUP'' \<and> 27 < wait_of r) ?rows)
          \<le> length (filter (\<lambda>r. phone_of r \<noteq> None) ?rows)"
    by (rule filter_length_mono) simp
  then have r3: "abandon_calls_over_27 (generate_summary_metrics acd_data apd)
       \<le> total_valid_calls (generate_summary_metrics acd_data apd)"
    by (simp only: summary_counts)
  from r0 r1 r2 r3 show ?thesis by linarith
qed

text \<open>
  C5: the abandonment rate of the summary, for the aggregates the analysis builds from the
  same inbound log, is the abandon calls less the abandon counts of the RECOVERED phones,
  over the valid calls, times 100, rounded to one decimal, and 0 when there is no valid
  call; the recovered abandon calls lie between 0 and the abandon calls, which are at most
  the valid calls, and the rate lies between 0 and 100.
\<close>

theorem abandonment_rate_bounds:
  "abandonment_rate (generate_summary_metrics acd_data (analysed_phones e acd_data call_data)) =
     (if 0 < total_valid_calls
               (generate_summary_metrics acd_data (analysed_phones e acd_data call_data))
      then py_round1
             (of_int (abandon_calls_over_27
                        (generate_summary_metrics acd_data (analysed_phones e acd_data call_data))
                      - sum_list (map (total_abandon_calls \<circ> snd)
                          (filter (\<lambda>(ph, d). recovery_status d = Some RECOVERED)
                             (analysed_phones e acd_data call_data))))
              / of_int (total_valid_calls
                          (generate_summary_metrics acd_data (analysed_phones e acd_data call_data)))
              * 100)
      else 0)
   \<and> 0 \<le> abandonment_rate
             (generate_summary_metrics acd_data (analysed_phones e acd_data call_data))
   \<and> abandonment_rate
        (generate_summary_metrics acd_data (analysed_phones e acd_data call_data)) \<le> 100"
proof -
  let ?A = "analysed_phones e acd_data call_data"
  let ?m = "generate_summary_metrics acd_data ?A"
  let ?v = "total_valid_calls ?m"
  let ?a = "abandon_calls_over_27 ?m - recovered_abandon_calls ?A"
  have form: "abandonment_rate ?m =
     (if 0 < ?v then py_round1 (of_int ?a / of_int ?v * 100) else 0)"
    by (simp only: summary_rate rate_formula)
  from analysed_recovered_bounds [of e acd_data call_data ?A]
  have a0: "0 \<le> ?a" and av: "?a \<le> ?v" by linarith+
  have bounds: "0 \<le> abandonment_rate ?m \<and> abandonment_rate ?m \<le> 100"
  proof (cases "0 < ?v")
    case True
    from ratio_bounds [OF a0 av True]
    have "0 \<le> py_round1 (of_int ?a / of_int ?v * 100)
          \<and> py_round1 (of_int ?a / of_int ?v * 100) \<le> 100"
      by (intro py_round1_bounds) simp_all
    with True show ?thesis by (simp only: form if_True)
  next
    case False
    then show ?thesis by (simp only: form if_False) simp
  qed
  from form bounds show ?thesis
    by (simp only: recovered_abandon_calls_sum) 
qed

theorem abandonment_rate_bounds_witness:
  "abandonment_rate
     (generate_summary_metrics [row_abandon, row_answered_failed, row_quick_drop]
        (analysed_phones env0 [row_abandon, row_answered_failed, row_quick_drop] [])) = 333 / 10
   \<and> 0 \<le> abandonment_rate
       (generate_summary_metrics [row_abandon, row_answered_failed, row_quick_drop]
          (analysed_phones env0 [row_abandon, row_answered_failed, row_quick_drop] []))
   \<and> abandonment_rate
       (generate_summary_metrics [row_abandon, row_answered_failed, row_quick_drop]
          (analysed_phones env0 [row_abandon, row_answered_failed, row_quick_drop] [])) \<le> 100
   \<and> abandonment_rate (generate_summary_metrics [] (analysed_phones env0 [] [])) = 0"
proof -
  have v: "abandonment_rate
     (generate_summary_metrics [row_abandon, row_answered_failed, row_quick_drop]
        (analysed_phones env0 [row_abandon, row_answered_failed, row_quick_drop] [])) = 333 / 10"
    by code_simp
  have z: "total_valid_calls (generate_summary_metrics [] (analysed_phones env0 [] [])) = 0"
    by code_simp
  note b = abandonment_rate_bounds
             [of "[row_abandon, row_answered_failed, row_quick_drop]" env0 "[]", THEN conjunct2]
  from abandonment_rate_bounds [of "[]" env0 "[]", THEN conjunct1] z
  have "abandonment_rate (generate_summary_metrics [] (analysed_phones env0 [] [])) = 0"
    by simp
  with v b show ?thesis by (intro conjI) simp_all
qed

lemma validate_timestamp_window:
  assumes "parse_timestamp e s = Some (At t)"
    and "t < now e - 730 * day \<or> now e + 365 * day < t"
  shows "validate_timestamp e s = None"
  using assms by (auto simp: validate_timestamp_def Let_def)

lemma valid_data_append:
  "valid_data e (xs @ ys) = valid_data e xs @ valid_data e ys"
  by (simp add: valid_data_def)

lemma valid_data_invalid:
  "time_of e r = None \<Longrightarrow> valid_data e (r # rows) = valid_data e rows"
  by (simp add: valid_data_def split: option.splits)

text \<open>
  C6, as amended: a record whose timestamp parses to a moment outside the window from 730
  days before to 365 days after the clock is rejected by the timestamp validation; it
  changes no aggregate, is no candidate of the recovery search and is left out of the
  valid data of the daily breakdown, so the aggregates and the valid data of a log are
  those of the log without it. The summary pass does not read the timestamp: when the
  phone of the record normalizes, the record is counted as a valid call, and as an
  answered call, a hungup call, a quick drop or an abandon call as its flag and its wait
  say.
\<close>

theorem out_of_window_rejected:
  assumes "parse_timestamp e (safe_get_column r ''Call Time'' []) = Some (At t)"
    and "t < now e - 730 * day \<or> now e + 365 * day < t"
  shows "time_of e r = None
     \<and> extract_step e r st = st
     \<and> (\<forall>ph fat. inbound_candidate e ph fat r = None \<and> outbound_candidate e ph fat r = None)
     \<and> (\<forall>pre post. fold (extract_step e) (pre @ r # post) []
                      = fold (extract_step e) (pre @ post) []
                    \<and> valid_data e (pre @ r # post) = valid_data e (pre @ post))
     \<and> (\<forall>m p. phone_of r = Some p \<longrightarrow>
            t_valid_calls (metrics_step r m) = t_valid_calls m + 1
            \<and> t_valid_answered (metrics_step r m) =
                t_valid_answered m + (if flag_of r = ''ANSWERED'' then 1 else 0)
            \<and> t_valid_hungup (metrics_step r m) =
                t_valid_hungup m + (if flag_of r = ''HUNGUP'' then 1 else 0)
            \<and> t_quick_drops (metrics_step r m) =
                t_quick_drops m + (if flag_of r = ''HUNGUP'' \<and> wait_of r \<le> 27 then 1 else 0)
            \<and> t_abandon_calls (metrics_step r m) =
                t_abandon_calls m + (if flag_of r = ''HUNGUP'' \<and> 27 < wait_of r then 1 else 0))"
proof -
  from validate_timestamp_window [OF assms] have none: "time_of e r = None" .
  then have ev: "abandon_event e r = None" by (simp add: abandon_event_def split: option.splits)
  have step: "extract_step e r st' = st'" for st'
    using ev by (rule extract_step_None)
  have cand: "inbound_candidate e ph fat r = None \<and> outbound_candidate e ph fat r = None"
    for ph fat
    using none by (simp add: inbound_candidate_def outbound_candidate_def Let_def)
  have whole: "fold (extract_step e) (pre @ r # post) [] = fold (extract_step e) (pre @ post) []
                 \<and> valid_data e (pre @ r # post) = valid_data e (pre @ post)" for pre post
    using none by (simp add: step valid_data_append valid_data_invalid)
  have metr: "t_valid_calls (metrics_step r m) = t_valid_calls m + 1
            \<and> t_valid_answered (metrics_step r m) =
                t_valid_answered m + (if flag_of r = ''ANSWERED'' then 1 else 0)
            \<and> t_valid_hungup (metrics_step r m) =
                t_valid_hungup m + (if flag_of r = ''HUNGUP'' then 1 else 0)
            \<and> t_quick_drops (metrics_step r m) =
                t_quick_drops m + (if flag_of r = ''HUNGUP'' \<and> wait_of r \<le> 27 then 1 else 0)
            \<and> t_abandon_calls (metrics_step r m) =
                t_abandon_calls m + (if flag_of r = ''HUNGUP'' \<and> 27 < wait_of r then 1 else 0)"
    if "phone_of r = Some p" for m p
    using that by (simp add: metrics_step_def Let_def)
  show ?thesis
  proof (intro conjI allI impI)
    show "time_of e r = None" by (rule none)
    show "extract_step e r st = st" by (rule step)
  next
    fix ph fat
    from cand [of ph fat] show "inbound_candidate e ph fat r = None" by (rule conjunct1)
    from cand [of ph fat] show "outbound_candidate e ph fat r = None" by (rule conjunct2)
  next
    fix pre post
    from whole [of pre post]
    show "fold (extract_step e) (pre @ r # post) [] = fold (extract_step e) (pre @ post) []"
      by (rule conjunct1)
    from whole [of pre post]
    show "valid_data e (pre @ r # post) = valid_data e (pre @ post)" by (rule conjunct2)
  next
    fix m p assume p: "phone_of r = Some p"
    note mm = metr [OF p, of m]
    from mm show "t_valid_calls (metrics_step r m) = t_valid_calls m + 1" by (elim conjE)
    from mm show "t_valid_answered (metrics_step r m) =
                t_valid_answered m + (if flag_of r = ''ANSWERED'' then 1 else 0)"
      by (elim conjE)
    from mm show "t_valid_hungup (metrics_step r m) =
                t_valid_hungup m + (if flag_of r = ''HUNGUP'' then 1 else 0)"
      by (elim conjE)
    from mm show "t_quick_drops (metrics_step r m) =
                t_quick_drops m + (if flag_of r = ''HUNGUP'' \<and> wait_of r \<le> 27 then 1 else 0)"
      by (elim conjE)
    from mm show "t_abandon_calls (metrics_step r m) =
                t_abandon_calls m + (if flag_of r = ''HUNGUP'' \<and> 27 < wait_of r then 1 else 0)"
      by (elim conjE)
  qed
qed

theorem out_of_window_rejected_witness:
  "parse_timestamp env0 (safe_get_column row_old_abandon ''Call Time'' [])
     = Some (At 1600000000)
   \<and> 1600000000 < now env0 - 730 * day
   \<and> time_of env0 row_old_abandon = None
   \<and> extract_step env0 row_old_abandon [] = []
   \<and> phone_of row_old_abandon = Some ''5550001111''
   \<and> flag_of row_old_abandon = ''HUNGUP'' \<and> wait_of row_old_abandon = 45
   \<and> t_valid_calls (metrics_step row_old_abandon
        \<lparr> t_valid_calls = 0, t_valid_answered = 0, t_valid_hungup = 0,
          t_quick_drops = 0, t_abandon_calls = 0 \<rparr>) = 1
   \<and> t_abandon_calls (metrics_step row_old_abandon
        \<lparr> t_valid_calls = 0, t_valid_answered = 0, t_valid_hungup = 0,
          t_quick_drops = 0, t_abandon_calls = 0 \<rparr>) = 1"
proof -
  have p: "parse_timestamp env0 (safe_get_column row_old_abandon ''Call Time'' [])
             = Some (At 1600000000)" by code_simp
  have w: "1600000000 < now env0 - 730 * day" by code_simp
  then have w': "1600000000 < now env0 - 730 * day \<or> now env0 + 365 * day < 1600000000" ..
  have ph: "phone_of row_old_abandon = Some ''5550001111''" by code_simp
  let ?m = "\<lparr> t_valid_calls = 0, t_valid_answered = 0, t_valid_hungup = 0,
          t_quick_drops = 0, t_abandon_calls = 0 \<rparr>"
  note th = out_of_window_rejected [OF p w', of "[]"]
  note a = th [THEN conjunct1]
  note b = th [THEN conjunct2, THEN conjunct1]
  have fw: "flag_of row_old_abandon = ''HUNGUP''" "wait_of row_old_abandon = 45"
    by code_simp+
  note counts = th [THEN conjunct2, THEN conjunct2, THEN conjunct2, THEN conjunct2,
                    rule_format, OF ph, of ?m]
  from counts [THEN conjunct1]
  have c: "t_valid_calls (metrics_step row_old_abandon ?m) = 1" by simp
  from counts [THEN conjunct2, THEN conjunct2, THEN conjunct2, THEN conjunct2]
  have d: "t_abandon_calls (metrics_step row_old_abandon ?m) = 1" by (simp add: fw)
  from p w a b ph fw c d show ?thesis by (intro conjI)
qed

theorem out_of_window_counted_counterexample:
  "time_of env0 row_old_answered = None \<and> time_of env0 row_old_abandon = None
   \<and> analysed_phones env0 [row_old_answered, row_old_abandon] [] = []
   \<and> total_valid_calls
       (generate_summary_metrics [row_old_answered, row_old_abandon]
          (analysed_phones env0 [row_old_answered, row_old_abandon] [])) = 2
   \<and> total_answered_calls
       (generate_summary_metrics [row_old_answered, row_old_abandon]
          (analysed_phones env0 [row_old_answered, row_old_abandon] [])) = 1
   \<and> total_hungup_calls
       (generate_summary_metrics [row_old_answered, row_old_abandon]
          (analysed_phones env0 [row_old_answered, row_old_abandon] [])) = 1
   \<and> abandon_calls_over_27
       (generate_summary_metrics [row_old_answered, row_old_abandon]
          (analysed_phones env0 [row_old_answered, row_old_abandon] [])) = 1"
  by code_simp

section \<open>Properties of the daily breakdown\<close>


















end
